theory Spec2Isabelle
  imports Complex_Main "HOL-Library.Log_Nat"
begin

section \<open>Python numbers\<close>

text \<open>
  The script \<^verbatim>\<open>generate_app_icons.py\<close> computes its geometry and its gradient with
  Python floats, which are IEEE 754 binary64 values, and turns them into pixel
  coordinates with \<^verbatim>\<open>int()\<close>.  A float is modelled as the rational number it denotes,
  and every float operation as the exact operation followed by rounding to 53
  significant bits, ties to even.  The exponent range is not modelled: the values of
  this program lie between \<open>2\<^sup>-\<^sup>3\<^sup>1\<close> and \<open>2\<^sup>4\<^sup>1\<close> for every size an image can have,
  far from overflow and from the subnormal range.
\<close>

definition round_half_even :: "rat \<Rightarrow> int" where
  "round_half_even q = (let f = \<lfloor>q\<rfloor>; d = q - of_int f in
     if d < 1/2 then f else if 1/2 < d then f + 1 else if even f then f else f + 1)"

text \<open>\<open>ilog2 x\<close> is \<open>\<lfloor>log\<^sub>2 x\<rfloor>\<close> for a positive \<open>x\<close>, computed from the bit lengths of
  numerator and denominator.\<close>

definition ilog2 :: "rat \<Rightarrow> int" where
  "ilog2 x = (case quotient_of x of (p, q) \<Rightarrow>
     let e0 = bitlen p - bitlen q in if 2 powi e0 \<le> x then e0 else e0 - 1)"

text \<open>Rounding to the nearest binary64 value.\<close>

definition fl :: "rat \<Rightarrow> rat" where
  "fl x = (if x = 0 then 0 else
     let ulp = 2 powi (ilog2 \<bar>x\<bar> - 52) in of_int (round_half_even (x / ulp)) * ulp)"

text \<open>\<^verbatim>\<open>int(x)\<close> on a float truncates towards zero.\<close>

definition py_int :: "rat \<Rightarrow> int" where
  "py_int x = (if 0 \<le> x then \<lfloor>x\<rfloor> else \<lceil>x\<rceil>)"

text \<open>An int operand of a mixed operation is converted to a float first.\<close>

definition py_float :: "int \<Rightarrow> rat" where
  "py_float n = fl (of_int n)"

text \<open>\<^verbatim>\<open>a / b\<close> on two ints is the correctly rounded quotient.\<close>

definition truediv :: "int \<Rightarrow> int \<Rightarrow> rat" where
  "truediv a b = fl (of_int a / of_int b)"

definition fmul :: "rat \<Rightarrow> rat \<Rightarrow> rat" where
  "fmul x y = fl (x * y)"

definition fadd :: "rat \<Rightarrow> rat \<Rightarrow> rat" where
  "fadd x y = fl (x + y)"

definition fsub :: "rat \<Rightarrow> rat \<Rightarrow> rat" where
  "fsub x y = fl (x - y)"

section \<open>The image library\<close>

text \<open>
  The script draws with Pillow (\<^verbatim>\<open>PIL.Image\<close>, \<^verbatim>\<open>PIL.ImageDraw\<close>), which is not part of
  the repository.  An image is its mode, its size and its rows of pixels.  Which pixels
  a shape covers is the library's business and is a parameter of the model (the
  \<open>rasterizer\<close>); what the script decides is which shapes are drawn, where, in which
  order and with which fill.
\<close>

datatype py_error = ValueError | OverflowError | MemoryError | OSError

datatype mode = ModeRGB | ModeRGBA

text \<open>A fill or a pixel: a 3-tuple or a 4-tuple of band values.\<close>

datatype colour = RGB int int int | RGBA int int int int

type_synonym point = "int \<times> int"

datatype shape =
    RoundedRectangle point point int
  | Polygon "point list"
  | Ellipse point point
  | Line point point

type_synonym rasterizer = "shape \<Rightarrow> point \<Rightarrow> bool"

record image =
  mode :: mode
  im_size :: "int \<times> int"
  rows :: "colour list list"

fun pixel_mode :: "colour \<Rightarrow> mode" where
  "pixel_mode (RGB r g b) = ModeRGB"
| "pixel_mode (RGBA r g b a) = ModeRGBA"

text \<open>The alpha of a pixel; a pixel without an alpha band is opaque.\<close>

fun alpha :: "colour \<Rightarrow> int" where
  "alpha (RGB r g b) = 255"
| "alpha (RGBA r g b a) = a"


text \<open>The ink a fill becomes on an image of a given mode.\<close>

fun ink :: "mode \<Rightarrow> colour \<Rightarrow> colour" where
  "ink ModeRGB (RGB r g b) = RGB r g b"
| "ink ModeRGB (RGBA r g b a) = RGB r g b"
| "ink ModeRGBA (RGB r g b) = RGBA r g b 255"
| "ink ModeRGBA (RGBA r g b a) = RGBA r g b a"

text \<open>
  \<^verbatim>\<open>Image.new(mode, size, color)\<close>.  A negative width or height is a \<^verbatim>\<open>ValueError\<close>.  The
  library takes the two numbers as C ints, so one that does not fit in 32 bits is an
  \<^verbatim>\<open>OverflowError\<close>, and it refuses with a \<^verbatim>\<open>MemoryError\<close> a width above \<^verbatim>\<open>INT_MAX / 4 - 1\<close>,
  whose lines of four bytes a pixel it could not address.  Below that limit an image is
  returned: that the machine runs out of memory earlier is not modelled.
\<close>

definition new_image :: "mode \<Rightarrow> int \<times> int \<Rightarrow> colour \<Rightarrow> py_error + image" where
  "new_image m dims c = (case dims of (w, h) \<Rightarrow>
     if w < 0 \<or> h < 0 then Inl ValueError
     else if 2 ^ 31 \<le> w \<or> 2 ^ 31 \<le> h then Inl OverflowError
     else if (2 ^ 31 - 1) div 4 - 1 < w then Inl MemoryError
     else Inr \<lparr>mode = m, im_size = (w, h),
               rows = replicate (nat h) (replicate (nat w) (ink m c))\<rparr>)"

definition map_pixels :: "(int \<Rightarrow> int \<Rightarrow> colour \<Rightarrow> colour) \<Rightarrow> colour list list \<Rightarrow> colour list list" where
  "map_pixels f rs =
     map (\<lambda>(y, row). map (\<lambda>(x, p). f (int x) (int y) p) (enumerate 0 row)) (enumerate 0 rs)"

text \<open>Pillow rejects a bounding box whose second corner lies before the first.\<close>

fun shape_error :: "shape \<Rightarrow> py_error option" where
  "shape_error (RoundedRectangle (x0, y0) (x1, y1) radius) =
     (if x1 < x0 \<or> y1 < y0 then Some ValueError else None)"
| "shape_error (Ellipse (x0, y0) (x1, y1)) =
     (if x1 < x0 \<or> y1 < y0 then Some ValueError else None)"
| "shape_error (Polygon pts) = None"
| "shape_error (Line p0 p1) = None"

text \<open>A drawing call of \<^verbatim>\<open>ImageDraw.Draw(img)\<close>: the covered pixels take the ink, the
  others keep their value.\<close>

definition draw_shape :: "rasterizer \<Rightarrow> image \<Rightarrow> shape \<Rightarrow> colour \<Rightarrow> py_error + image" where
  "draw_shape covers img s fill = (case shape_error s of
       Some e \<Rightarrow> Inl e
     | None \<Rightarrow> Inr (img\<lparr>rows :=
         map_pixels (\<lambda>x y p. if covers s (x, y) then ink (mode img) fill else p) (rows img)\<rparr>))"

fun draw_all :: "rasterizer \<Rightarrow> image \<Rightarrow> (shape \<times> colour) list \<Rightarrow> py_error + image" where
  "draw_all covers img [] = Inr img"
| "draw_all covers img ((s, fill) # cs) = (case draw_shape covers img s fill of
       Inl e \<Rightarrow> Inl e
     | Inr img' \<Rightarrow> draw_all covers img' cs)"

definition pixel_at :: "image \<Rightarrow> int \<Rightarrow> int \<Rightarrow> colour option" where
  "pixel_at img x y =
     (if 0 \<le> y \<and> nat y < length (rows img) \<and> 0 \<le> x \<and> nat x < length (rows img ! nat y)
      then Some (rows img ! nat y ! nat x) else None)"

text \<open>Blending one band with an 8-bit mask value, as Pillow's paste does.\<close>

definition mix :: "int \<Rightarrow> int \<Rightarrow> int \<Rightarrow> int" where
  "mix bg fg a = (let t = bg * (255 - a) + fg * a + 128 in (t div 256 + t) div 256)"

fun blend :: "colour \<Rightarrow> colour \<Rightarrow> int \<Rightarrow> colour" where
  "blend (RGB r g b) src a = (case ink ModeRGB src of
       RGB sr sg sb \<Rightarrow> RGB (mix r sr a) (mix g sg a) (mix b sb a)
     | RGBA sr sg sb sa \<Rightarrow> RGB (mix r sr a) (mix g sg a) (mix b sb a))"
| "blend (RGBA r g b al) src a = (case ink ModeRGBA src of
       RGB sr sg sb \<Rightarrow> RGBA (mix r sr a) (mix g sg a) (mix b sb a) al
     | RGBA sr sg sb sa \<Rightarrow> RGBA (mix r sr a) (mix g sg a) (mix b sb a) (mix al sa a))"

text \<open>\<^verbatim>\<open>dst.paste(src, (0, 0), mask)\<close>: every pixel of \<open>dst\<close> that \<open>src\<close> and \<open>mask\<close> cover is
  blended with the source pixel, weighted by the alpha band of the mask.\<close>

definition paste :: "image \<Rightarrow> image \<Rightarrow> image \<Rightarrow> image" where
  "paste dst src msk = dst\<lparr>rows :=
     map_pixels (\<lambda>x y p. case (pixel_at src x y, pixel_at msk x y) of
         (Some s, Some m) \<Rightarrow> blend p s (alpha m)
       | _ \<Rightarrow> p) (rows dst)\<rparr>"

section \<open>The icon renderer\<close>

subsection \<open>Colours\<close>

definition sky_blue :: colour where
  "sky_blue = RGB 77 166 255"

definition sky_blue_light :: colour where
  "sky_blue_light = RGB 102 178 255"

definition peach :: colour where
  "peach = RGB 255 185 151"

definition white :: colour where
  "white = RGB 255 255 255"

text \<open>Indexing a colour tuple.\<close>

fun band :: "colour \<Rightarrow> nat \<Rightarrow> int" where
  "band (RGB r g b) i = [r, g, b] ! i"
| "band (RGBA r g b a) i = [r, g, b, a] ! i"

subsection \<open>Geometry\<close>

definition scale :: "int \<Rightarrow> rat" where
  "scale sz = truediv sz 1024"

definition bubble_size :: "int \<Rightarrow> int" where
  "bubble_size sz = py_int (fmul (py_float 700) (scale sz))"

definition bubble_x :: "int \<Rightarrow> int" where
  "bubble_x sz = (sz - bubble_size sz) div 2"

definition bubble_y :: "int \<Rightarrow> int" where
  "bubble_y sz =
     py_int (fsub (py_float ((sz - bubble_size sz) div 2)) (fmul (py_float 40) (scale sz)))"

definition shadow_offset :: "int \<Rightarrow> int" where
  "shadow_offset sz = py_int (fmul (py_float 8) (scale sz))"

definition bubble_radius :: "int \<Rightarrow> int" where
  "bubble_radius sz = py_int (fmul (py_float (bubble_size sz)) (fl (25 / 100)))"

definition tail_size :: "int \<Rightarrow> int" where
  "tail_size sz = py_int (fmul (py_float 60) (scale sz))"

definition tail_x :: "int \<Rightarrow> int" where
  "tail_x sz = bubble_x sz + py_int (fmul (py_float (bubble_size sz)) (fl (2 / 10)))"

definition tail_y :: "int \<Rightarrow> int" where
  "tail_y sz = bubble_y sz + bubble_size sz"

definition sparkle_center_x :: "int \<Rightarrow> int" where
  "sparkle_center_x sz = bubble_x sz + bubble_size sz div 2"

definition sparkle_center_y :: "int \<Rightarrow> int" where
  "sparkle_center_y sz = bubble_y sz + bubble_size sz div 2"

definition sparkle_size :: "int \<Rightarrow> int" where
  "sparkle_size sz = py_int (fmul (py_float 200) (scale sz))"

definition point_length :: "int \<Rightarrow> int" where
  "point_length sz = sparkle_size sz div 2"

definition point_width :: "int \<Rightarrow> int" where
  "point_width sz = py_int (fmul (py_float (sparkle_size sz)) (fl (3 / 10)))"

definition small_sparkle :: "int \<Rightarrow> int" where
  "small_sparkle sz = py_int (fmul (py_float (sparkle_size sz)) (fl (4 / 10)))"

definition small_width :: "int \<Rightarrow> int" where
  "small_width sz = py_int (fmul (py_float (small_sparkle sz)) (fl (3 / 10)))"

definition dot_distance :: "int \<Rightarrow> int" where
  "dot_distance sz = py_int (fmul (py_float (sparkle_size sz)) (fl (8 / 10)))"

definition dot_size :: "int \<Rightarrow> int" where
  "dot_size sz = py_int (fmul (py_float 20) (scale sz))"

definition accent_positions :: "int \<Rightarrow> point list" where
  "accent_positions sz =
     [(sparkle_center_x sz + dot_distance sz, sparkle_center_y sz - dot_distance sz),
      (sparkle_center_x sz - dot_distance sz, sparkle_center_y sz - dot_distance sz),
      (sparkle_center_x sz + dot_distance sz, sparkle_center_y sz + dot_distance sz)]"

subsection \<open>The drawing calls on the transparent layer, in source order\<close>

definition shadow_call :: "int \<Rightarrow> shape \<times> colour" where
  "shadow_call sz =
     (RoundedRectangle
        (bubble_x sz + shadow_offset sz, bubble_y sz + shadow_offset sz)
        (bubble_x sz + bubble_size sz + shadow_offset sz,
         bubble_y sz + bubble_size sz + shadow_offset sz)
        (bubble_radius sz),
      RGBA 0 0 0 30)"

definition bubble_call :: "int \<Rightarrow> shape \<times> colour" where
  "bubble_call sz =
     (RoundedRectangle
        (bubble_x sz, bubble_y sz)
        (bubble_x sz + bubble_size sz, bubble_y sz + bubble_size sz)
        (bubble_radius sz),
      sky_blue)"

definition tail_call :: "int \<Rightarrow> shape \<times> colour" where
  "tail_call sz =
     (Polygon [(tail_x sz, tail_y sz),
               (tail_x sz + tail_size sz, tail_y sz),
               (tail_x sz + tail_size sz div 2, tail_y sz + tail_size sz)],
      sky_blue)"

definition sparkle_calls :: "int \<Rightarrow> (shape \<times> colour) list" where
  "sparkle_calls sz =
     [(Polygon [(sparkle_center_x sz, sparkle_center_y sz - point_length sz),
                (sparkle_center_x sz + point_width sz div 2, sparkle_center_y sz),
                (sparkle_center_x sz, sparkle_center_y sz + point_length sz),
                (sparkle_center_x sz - point_width sz div 2, sparkle_center_y sz)],
       peach),
      (Polygon [(sparkle_center_x sz - point_length sz, sparkle_center_y sz),
                (sparkle_center_x sz, sparkle_center_y sz - point_width sz div 2),
                (sparkle_center_x sz + point_length sz, sparkle_center_y sz),
                (sparkle_center_x sz, sparkle_center_y sz + point_width sz div 2)],
       peach),
      (Polygon [(sparkle_center_x sz, sparkle_center_y sz - small_sparkle sz div 2),
                (sparkle_center_x sz + small_width sz div 2, sparkle_center_y sz),
                (sparkle_center_x sz, sparkle_center_y sz + small_sparkle sz div 2),
                (sparkle_center_x sz - small_width sz div 2, sparkle_center_y sz)],
       white),
      (Polygon [(sparkle_center_x sz - small_sparkle sz div 2, sparkle_center_y sz),
                (sparkle_center_x sz, sparkle_center_y sz - small_width sz div 2),
                (sparkle_center_x sz + small_sparkle sz div 2, sparkle_center_y sz),
                (sparkle_center_x sz, sparkle_center_y sz + small_width sz div 2)],
       white)]"

definition accent_calls :: "int \<Rightarrow> (shape \<times> colour) list" where
  "accent_calls sz =
     map (\<lambda>(x, y). (Ellipse (x - dot_size sz, y - dot_size sz)
                             (x + dot_size sz, y + dot_size sz),
                     RGBA 255 255 255 200))
         (accent_positions sz)"

definition layer_calls :: "int \<Rightarrow> (shape \<times> colour) list" where
  "layer_calls sz =
     [shadow_call sz, bubble_call sz, tail_call sz] @ sparkle_calls sz @ accent_calls sz"

subsection \<open>The background gradient\<close>

definition gradient_channel :: "nat \<Rightarrow> int \<Rightarrow> int \<Rightarrow> int" where
  "gradient_channel i sz y =
     (let ratio = truediv y sz in
      py_int (fadd (fmul (py_float (band sky_blue_light i)) (fsub (py_float 1) ratio))
                   (fmul (py_float (band sky_blue i)) ratio)))"

definition gradient_fill :: "int \<Rightarrow> int \<Rightarrow> colour" where
  "gradient_fill sz y =
     RGB (gradient_channel 0 sz y) (gradient_channel 1 sz y) (gradient_channel 2 sz y)"

definition gradient_calls :: "int \<Rightarrow> (shape \<times> colour) list" where
  "gradient_calls sz = map (\<lambda>y. (Line (0, y) (sz, y), gradient_fill sz y)) [0..sz - 1]"

subsection \<open>\<^verbatim>\<open>draw_urgood_icon\<close>\<close>

definition draw_urgood_icon :: "rasterizer \<Rightarrow> int \<Rightarrow> py_error + image" where
  "draw_urgood_icon covers sz =
     (case new_image ModeRGBA (sz, sz) (RGBA 0 0 0 0) of
        Inl e \<Rightarrow> Inl e
      | Inr img0 \<Rightarrow>
     (case draw_all covers img0 (layer_calls sz) of
        Inl e \<Rightarrow> Inl e
      | Inr img \<Rightarrow>
     (case new_image ModeRGB (sz, sz) (RGB 0 0 0) of
        Inl e \<Rightarrow> Inl e
      | Inr final0 \<Rightarrow>
     (case draw_all covers final0 (gradient_calls sz) of
        Inl e \<Rightarrow> Inl e
      | Inr final_img \<Rightarrow> Inr (paste final_img img img)))))"

subsection \<open>\<^verbatim>\<open>draw_urgood_icon\<close> on a store of image objects\<close>

text \<open>
  In the script an image is an object: \<^verbatim>\<open>Image.new\<close> allocates it, the drawing calls and
  \<^verbatim>\<open>paste\<close> change it in place, and \<^verbatim>\<open>draw_urgood_icon\<close> returns a reference to it.  The
  definitions of this subsection follow the script statement by statement on a store,
  the list of the image objects that exist; a reference is a position in it.  A function
  on a store can read, and change, whatever earlier calls left there; what is shown of
  this one below is that it does neither.
\<close>

type_synonym ref = nat

type_synonym store = "image list"

text \<open>\<^verbatim>\<open>Image.new\<close>: a new object, after the existing ones.\<close>

definition store_new :: "mode \<Rightarrow> int \<times> int \<Rightarrow> colour \<Rightarrow> store \<Rightarrow> py_error + (ref \<times> store)" where
  "store_new m dims c s = (case new_image m dims c of
       Inl e \<Rightarrow> Inl e
     | Inr img \<Rightarrow> Inr (length s, s @ [img]))"

text \<open>A drawing call of \<^verbatim>\<open>ImageDraw.Draw(img)\<close> changes the image \<^verbatim>\<open>img\<close> refers to.\<close>

definition store_draw :: "rasterizer \<Rightarrow> ref \<Rightarrow> shape \<Rightarrow> colour \<Rightarrow> store \<Rightarrow> py_error + store" where
  "store_draw covers r sh fill s = (case draw_shape covers (s ! r) sh fill of
       Inl e \<Rightarrow> Inl e
     | Inr img \<Rightarrow> Inr (s[r := img]))"

fun store_draw_all :: "rasterizer \<Rightarrow> ref \<Rightarrow> (shape \<times> colour) list \<Rightarrow> store \<Rightarrow> py_error + store" where
  "store_draw_all covers r [] s = Inr s"
| "store_draw_all covers r ((sh, fill) # cs) s = (case store_draw covers r sh fill s of
       Inl e \<Rightarrow> Inl e
     | Inr s' \<Rightarrow> store_draw_all covers r cs s')"

text \<open>\<^verbatim>\<open>dst.paste(src, (0, 0), mask)\<close> changes the image \<^verbatim>\<open>dst\<close> refers to.\<close>

definition store_paste :: "ref \<Rightarrow> ref \<Rightarrow> ref \<Rightarrow> store \<Rightarrow> store" where
  "store_paste dst src msk s = s[dst := paste (s ! dst) (s ! src) (s ! msk)]"

definition draw_urgood_icon_store :: "rasterizer \<Rightarrow> int \<Rightarrow> store \<Rightarrow> py_error + (ref \<times> store)" where
  "draw_urgood_icon_store covers sz s =
     (case store_new ModeRGBA (sz, sz) (RGBA 0 0 0 0) s of
        Inl e \<Rightarrow> Inl e
      | Inr (img, s1) \<Rightarrow>
     (case store_draw_all covers img (layer_calls sz) s1 of
        Inl e \<Rightarrow> Inl e
      | Inr s2 \<Rightarrow>
     (case store_new ModeRGB (sz, sz) (RGB 0 0 0) s2 of
        Inl e \<Rightarrow> Inl e
      | Inr (final_img, s3) \<Rightarrow>
     (case store_draw_all covers final_img (gradient_calls sz) s3 of
        Inl e \<Rightarrow> Inl e
      | Inr s4 \<Rightarrow> Inr (final_img, store_paste final_img img img s4)))))"

text \<open>What a caller sees of a call: the error raised, or the image behind the reference
  returned.\<close>

definition returned :: "py_error + (ref \<times> store) \<Rightarrow> py_error + image" where
  "returned res = (case res of Inl e \<Rightarrow> Inl e | Inr (r, s) \<Rightarrow> Inr (s ! r))"

section \<open>The driver\<close>

text \<open>
  What the program prints is kept as a list of messages, the stack traces it prints as
  a list of the errors traced, and the files it saves as a list of writes in the order
  they happen.  The environment says whether Pillow can be imported, where the script
  lies, which directories exist and which saves fail.
\<close>

datatype message =
    MissingDependencies
  | PleaseInstall
  | PipInstallPillow
  | IconDirectoryNotFound string
  | GeneratingAppIcons
  | Generating int string
  | FailedToGenerate string py_error
  | IconGenerationComplete
  | NextSteps
  | Step1
  | Step2
  | Step3

record world =
  stdout :: "message list"
  stderr :: "py_error list"
  writes :: "(string \<times> image) list"

record env =
  pil_available :: bool
  script_dir :: string
  dir_exists :: "string \<Rightarrow> bool"
  covers_of :: rasterizer
  save_error :: "string \<Rightarrow> py_error option"

definition print :: "message \<Rightarrow> world \<Rightarrow> world" where
  "print m w = w\<lparr>stdout := stdout w @ [m]\<rparr>"

definition print_exc :: "py_error \<Rightarrow> world \<Rightarrow> world" where
  "print_exc e w = w\<lparr>stderr := stderr w @ [e]\<rparr>"

text \<open>\<^verbatim>\<open>img.save(output_path, 'PNG', quality=95)\<close>; PNG is lossless, the file is the
  image.\<close>

definition save :: "env \<Rightarrow> image \<Rightarrow> string \<Rightarrow> world \<Rightarrow> world \<times> (py_error + unit)" where
  "save E img output_path w = (case save_error E output_path of
       Some e \<Rightarrow> (w, Inl e)
     | None \<Rightarrow> (w\<lparr>writes := writes w @ [(output_path, img)]\<rparr>, Inr ()))"

definition generate_icon :: "env \<Rightarrow> string \<Rightarrow> int \<Rightarrow> world \<Rightarrow> world \<times> (py_error + unit)" where
  "generate_icon E output_path sz w =
     (let w1 = print (Generating sz output_path) w in
      case draw_urgood_icon (covers_of E) sz of
        Inl e \<Rightarrow> (w1, Inl e)
      | Inr img \<Rightarrow> save E img output_path w1)"

definition ios_sizes :: "(string \<times> int) list" where
  "ios_sizes = [(''app_icon_1024.png'', 1024)]"

definition mac_sizes :: "(string \<times> int) list" where
  "mac_sizes =
     [(''app_icon_16.png'', 16),
      (''app_icon_16@2x.png'', 32),
      (''app_icon_32.png'', 32),
      (''app_icon_32@2x.png'', 64),
      (''app_icon_128.png'', 128),
      (''app_icon_128@2x.png'', 256),
      (''app_icon_256.png'', 256),
      (''app_icon_256@2x.png'', 512),
      (''app_icon_512.png'', 512),
      (''app_icon_512@2x.png'', 1024)]"

definition all_sizes :: "(string \<times> int) list" where
  "all_sizes = ios_sizes @ mac_sizes"

text \<open>\<^verbatim>\<open>str(d / name)\<close> for a directory given by its string and a relative name: pathlib
  puts a slash between the two, except after a root, which ends in a slash already, and
  except for the current directory \<^verbatim>\<open>.\<close>, which disappears.\<close>

definition path_join :: "string \<Rightarrow> string \<Rightarrow> string" where
  "path_join d name =
     (if d = ''.'' then name
      else if d \<noteq> [] \<and> last d = CHR ''/'' then d @ name
      else d @ ''/'' @ name)"

definition icon_dir :: "env \<Rightarrow> string" where
  "icon_dir E = path_join (script_dir E) ''urgood/urgood/Assets.xcassets/AppIcon.appiconset''"

text \<open>The loop of \<^verbatim>\<open>main\<close> over the list of file names and sizes, with its
  \<^verbatim>\<open>try\<close>/\<^verbatim>\<open>except Exception\<close>.\<close>

fun generate_all :: "env \<Rightarrow> string \<Rightarrow> (string \<times> int) list \<Rightarrow> world \<Rightarrow> world" where
  "generate_all E d [] w = w"
| "generate_all E d ((filename, sz) # rest) w =
     (case generate_icon E (path_join d filename) sz w of
        (w', Inr u) \<Rightarrow> generate_all E d rest w'
      | (w', Inl e) \<Rightarrow>
          generate_all E d rest (print_exc e (print (FailedToGenerate filename e) w')))"

datatype outcome = Returned | Exit int

definition main :: "env \<Rightarrow> world \<Rightarrow> world \<times> outcome" where
  "main E w =
     (if \<not> dir_exists E (icon_dir E)
      then (print (IconDirectoryNotFound (icon_dir E)) w, Exit 1)
      else
        let w1 = print GeneratingAppIcons w;
            w2 = generate_all E (icon_dir E) all_sizes w1;
            w3 = print IconGenerationComplete w2;
            w4 = print NextSteps w3;
            w5 = print Step1 w4;
            w6 = print Step2 w5;
            w7 = print Step3 w6
        in (w7, Returned))"

text \<open>The whole script: the import guard, then \<^verbatim>\<open>main()\<close>.  The result is the world
  it leaves and the exit status of the process.\<close>

definition program :: "env \<Rightarrow> world \<Rightarrow> world \<times> int" where
  "program E w =
     (if \<not> pil_available E
      then (print PipInstallPillow (print PleaseInstall (print MissingDependencies w)), 1)
      else case main E w of
             (w', Exit n) \<Rightarrow> (w', n)
           | (w', Returned) \<Rightarrow> (w', 0))"

section \<open>Notions used in the statements\<close>

text \<open>An image is well formed when its rows agree with its size and its pixels with its
  mode.\<close>

definition well_formed :: "image \<Rightarrow> bool" where
  "well_formed img = (case im_size img of (w, h) \<Rightarrow>
     0 \<le> w \<and> 0 \<le> h \<and> length (rows img) = nat h \<and>
     list_all (\<lambda>row. length row = nat w \<and> list_all (\<lambda>p. pixel_mode p = mode img) row) (rows img))"

text \<open>The bubble's bounding box in the words of the specification: a square of side
  \<^verbatim>\<open>int(700 * scale)\<close> with \<^verbatim>\<open>scale = S / 1024\<close>, its left edge at \<^verbatim>\<open>(S - side) // 2\<close> and its
  top edge at \<^verbatim>\<open>int((S - side) // 2 - 40 * scale)\<close>.\<close>

definition spec_bubble_box :: "int \<Rightarrow> point \<times> point" where
  "spec_bubble_box S =
     (let scale = truediv S 1024;
          side = py_int (fmul (py_float 700) scale);
          left = (S - side) div 2;
          top = py_int (fsub (py_float ((S - side) div 2)) (fmul (py_float 40) scale))
      in ((left, top), (left + side, top + side)))"

text \<open>The radius of an accent dot in the words of the specification: \<^verbatim>\<open>10 * scale\<close>.\<close>

definition spec_accent_radius :: "int \<Rightarrow> rat" where
  "spec_accent_radius S = fmul (py_float 10) (truediv S 1024)"

definition is_ellipse :: "shape \<Rightarrow> bool" where
  "is_ellipse s = (case s of Ellipse p0 p1 \<Rightarrow> True | _ \<Rightarrow> False)"

text \<open>A channel of the gradient in the words of the specification: the integer
  truncation of \<^verbatim>\<open>light * (1 - y / S) + dark * (y / S)\<close>.\<close>

definition spec_gradient_channel :: "int \<Rightarrow> int \<Rightarrow> int \<Rightarrow> int \<Rightarrow> int" where
  "spec_gradient_channel light dark S y =
     py_int (fadd (fmul (py_float light) (fsub (py_float 1) (truediv y S)))
                  (fmul (py_float dark) (truediv y S)))"

text \<open>Two colours match within rounding when no band differs by more than one.\<close>

definition within_rounding :: "colour \<Rightarrow> colour \<Rightarrow> bool" where
  "within_rounding c c' =
     (\<bar>band c 0 - band c' 0\<bar> \<le> 1 \<and> \<bar>band c 1 - band c' 1\<bar> \<le> 1 \<and> \<bar>band c 2 - band c' 2\<bar> \<le> 1)"

text \<open>What one entry of the list comes to: the error that \<^verbatim>\<open>generate_icon\<close> raises for
  it, from the renderer or from the save, or the image it saves.\<close>

definition icon_outcome :: "env \<Rightarrow> string \<Rightarrow> int \<Rightarrow> py_error + image" where
  "icon_outcome E output_path sz = (case draw_urgood_icon (covers_of E) sz of
       Inl e \<Rightarrow> Inl e
     | Inr img \<Rightarrow> (case save_error E output_path of Some e \<Rightarrow> Inl e | None \<Rightarrow> Inr img))"

text \<open>What the loop prints, traces and writes for one entry.\<close>

definition entry_messages :: "env \<Rightarrow> string \<Rightarrow> string \<times> int \<Rightarrow> message list" where
  "entry_messages E d entry = (case entry of (filename, sz) \<Rightarrow>
     Generating sz (path_join d filename) #
     (case icon_outcome E (path_join d filename) sz of
        Inl e \<Rightarrow> [FailedToGenerate filename e]
      | Inr img \<Rightarrow> []))"

definition entry_traces :: "env \<Rightarrow> string \<Rightarrow> string \<times> int \<Rightarrow> py_error list" where
  "entry_traces E d entry = (case entry of (filename, sz) \<Rightarrow>
     (case icon_outcome E (path_join d filename) sz of Inl e \<Rightarrow> [e] | Inr img \<Rightarrow> []))"

definition entry_writes :: "env \<Rightarrow> string \<Rightarrow> string \<times> int \<Rightarrow> (string \<times> image) list" where
  "entry_writes E d entry = (case entry of (filename, sz) \<Rightarrow>
     (case icon_outcome E (path_join d filename) sz of
        Inl e \<Rightarrow> []
      | Inr img \<Rightarrow> [(path_join d filename, img)]))"

definition is_generating :: "message \<Rightarrow> bool" where
  "is_generating m = (case m of Generating sz p \<Rightarrow> True | _ \<Rightarrow> False)"

text \<open>A sample rasterizer: every shape covers its bounding box.\<close>

fun box_covers :: rasterizer where
  "box_covers (RoundedRectangle (x0, y0) (x1, y1) radius) (x, y) =
     (x0 \<le> x \<and> x \<le> x1 \<and> y0 \<le> y \<and> y \<le> y1)"
| "box_covers (Ellipse (x0, y0) (x1, y1)) (x, y) =
     (x0 \<le> x \<and> x \<le> x1 \<and> y0 \<le> y \<and> y \<le> y1)"
| "box_covers (Line (x0, y0) (x1, y1)) (x, y) =
     (min x0 x1 \<le> x \<and> x \<le> max x0 x1 \<and> min y0 y1 \<le> y \<and> y \<le> max y0 y1)"
| "box_covers (Polygon pts) (x, y) =
     (pts \<noteq> [] \<and> Min (set (map fst pts)) \<le> x \<and> x \<le> Max (set (map fst pts)) \<and>
      Min (set (map snd pts)) \<le> y \<and> y \<le> Max (set (map snd pts)))"

text \<open>Sample environments: one where everything works, one where the save of one file
  fails, one without the icon directory; and the world before the program runs.\<close>

definition sample_env :: env where
  "sample_env = \<lparr>pil_available = True, script_dir = ''/repo'', dir_exists = (\<lambda>d. True),
     covers_of = box_covers, save_error = (\<lambda>p. None)\<rparr>"

definition failing_env :: env where
  "failing_env = sample_env\<lparr>save_error :=
     (\<lambda>p. if p = path_join (icon_dir sample_env) ''app_icon_32.png'' then Some OSError else None)\<rparr>"

definition no_dir_env :: env where
  "no_dir_env = sample_env\<lparr>dir_exists := (\<lambda>d. False)\<rparr>"

definition empty_world :: world where
  "empty_world = \<lparr>stdout = [], stderr = [], writes = []\<rparr>"

text \<open>An image object that exists before the renderer is called.\<close>

definition blank_image :: image where
  "blank_image = \<lparr>mode = ModeRGBA, im_size = (1, 1), rows = [[RGBA 9 9 9 9]]\<rparr>"

section \<open>Facts about rounding\<close>

lemma round_half_even_err: "\<bar>of_int (round_half_even q) - q\<bar> \<le> 1/2"
  unfolding round_half_even_def Let_def by (auto simp: abs_if) linarith+

lemma round_half_even_of_int: "round_half_even (of_int n) = n"
  by (simp add: round_half_even_def)

lemma round_half_even_nonneg: "0 \<le> q \<Longrightarrow> 0 \<le> round_half_even q"
  unfolding round_half_even_def Let_def by (auto simp: zero_le_floor)

lemma powi_pos: "(0::rat) < 2 powi a"
  by (simp add: power_int_def)

lemma powi_less_cancel: "(2::rat) powi a < 2 powi b \<Longrightarrow> a < b"
  by (metis not_less power_int_increasing one_le_numeral)

lemma ilog2_bounds:
  assumes "0 < x"
  shows "2 powi (ilog2 x) \<le> x" and "x < 2 powi (ilog2 x + 1)"
proof -
  obtain p q where pq: "quotient_of x = (p, q)" by (cases "quotient_of x")
  then have q: "0 < q" and x: "x = of_int p / of_int q"
    by (auto dest: quotient_of_denom_pos quotient_of_div)
  with assms have p: "0 < p" by (simp add: zero_less_divide_iff)
  define bp bq where "bp = bitlen p" and "bq = bitlen q"
  have bp1: "1 \<le> bp" and bq1: "1 \<le> bq"
    using p q bitlen_eq_zero_iff[of p] bitlen_eq_zero_iff[of q] bitlen_nonneg[of p] bitlen_nonneg[of q]
    unfolding bp_def bq_def by linarith+
  have P: "2 ^ nat (bp - 1) \<le> p" "p < 2 ^ nat bp" and Q: "2 ^ nat (bq - 1) \<le> q" "q < 2 ^ nat bq"
    using bitlen_bounds[OF p] bitlen_bounds[OF q] unfolding bp_def bq_def by auto
  have rp: "(2::rat) powi (bp - 1) \<le> of_int p" "of_int p < (2::rat) powi bp"
  proof -
    have "(of_int (2 ^ nat (bp - 1)) :: rat) \<le> of_int p" using P(1) by (simp only: of_int_le_iff)
    then show "(2::rat) powi (bp - 1) \<le> of_int p" using bp1 by (simp add: power_int_def)
    have "(of_int p :: rat) < of_int (2 ^ nat bp)" using P(2) by (simp only: of_int_less_iff)
    then show "of_int p < (2::rat) powi bp" using bp1 by (simp add: power_int_def)
  qed
  have rq: "(2::rat) powi (bq - 1) \<le> of_int q" "of_int q < (2::rat) powi bq"
  proof -
    have "(of_int (2 ^ nat (bq - 1)) :: rat) \<le> of_int q" using Q(1) by (simp only: of_int_le_iff)
    then show "(2::rat) powi (bq - 1) \<le> of_int q" using bq1 by (simp add: power_int_def)
    have "(of_int q :: rat) < of_int (2 ^ nat bq)" using Q(2) by (simp only: of_int_less_iff)
    then show "of_int q < (2::rat) powi bq" using bq1 by (simp add: power_int_def)
  qed
  have qpos: "(0::rat) < of_int q" using q by simp
  have up: "x < 2 powi (bp - bq + 1)"
  proof -
    have "2 powi (bp - bq + 1) * of_int q \<ge> 2 powi (bp - bq + 1) * (2::rat) powi (bq - 1)"
      using rq(1) powi_pos by simp
    also have "2 powi (bp - bq + 1) * (2::rat) powi (bq - 1) = 2 powi bp"
      using power_int_add[of "2::rat" "bp - bq + 1" "bq - 1"] by simp
    finally have "of_int p < 2 powi (bp - bq + 1) * (of_int q :: rat)" using rp(2) by linarith
    then show ?thesis using x qpos by (simp add: divide_less_eq)
  qed
  have lo: "2 powi (bp - bq - 1) < x"
  proof -
    have "2 powi (bp - bq - 1) * of_int q < 2 powi (bp - bq - 1) * (2::rat) powi bq"
      using rq(2) powi_pos by simp
    also have "2 powi (bp - bq - 1) * (2::rat) powi bq = 2 powi (bp - 1)"
      using power_int_add[of "2::rat" "bp - bq - 1" "bq"] by simp
    finally have "2 powi (bp - bq - 1) * (of_int q :: rat) < of_int p" using rp(1) by linarith
    then show ?thesis using x qpos by (simp add: less_divide_eq)
  qed
  have e: "ilog2 x = (if 2 powi (bp - bq) \<le> x then bp - bq else bp - bq - 1)"
    by (simp add: ilog2_def pq bp_def bq_def Let_def)
  show "2 powi (ilog2 x) \<le> x" using lo by (simp add: e)
  show "x < 2 powi (ilog2 x + 1)" using up by (auto simp add: e not_le)
qed

lemma fl_zero: "fl 0 = 0"
  by (simp add: fl_def)

lemma fl_eq:
  assumes "x \<noteq> 0"
  shows "fl x = of_int (round_half_even (x / 2 powi (ilog2 \<bar>x\<bar> - 52))) * 2 powi (ilog2 \<bar>x\<bar> - 52)"
  using assms by (simp add: fl_def Let_def)

lemma fl_abs_err:
  assumes "x \<noteq> 0"
  shows "\<bar>fl x - x\<bar> \<le> 2 powi (ilog2 \<bar>x\<bar> - 53)"
proof -
  define ulp :: rat where "ulp = 2 powi (ilog2 \<bar>x\<bar> - 52)"
  have ulp: "0 < ulp" unfolding ulp_def by (rule powi_pos)
  define n where "n = round_half_even (x / ulp)"
  have "fl x - x = (of_int n - x / ulp) * ulp"
    using ulp by (simp add: fl_eq[OF assms] ulp_def[symmetric] n_def algebra_simps)
  then have "\<bar>fl x - x\<bar> = \<bar>of_int n - x / ulp\<bar> * ulp"
    using ulp by (simp add: abs_mult)
  also have "\<dots> \<le> (1/2) * ulp"
    using round_half_even_err[of "x / ulp"] ulp unfolding n_def
    by (intro mult_right_mono) auto
  also have "(1/2) * ulp = 2 powi (ilog2 \<bar>x\<bar> - 53)"
    unfolding ulp_def using power_int_add[of "2::rat" "ilog2 \<bar>x\<bar> - 53" 1] by simp
  finally show ?thesis .
qed

text \<open>The relative error of one rounding is at most \<open>2\<^sup>-\<^sup>5\<^sup>3\<close>.\<close>

lemma fl_rel_err: "\<bar>fl x - x\<bar> \<le> \<bar>x\<bar> / 2 ^ 53"
proof (cases "x = 0")
  case True
  then show ?thesis by (simp add: fl_zero)
next
  case False
  then have pos: "0 < \<bar>x\<bar>" by simp
  have "2 powi (ilog2 \<bar>x\<bar> - 53) = 2 powi (ilog2 \<bar>x\<bar>) / (2::rat) ^ 53"
    using power_int_diff[of "2::rat" "ilog2 \<bar>x\<bar>" 53] by (simp add: power_int_def)
  also have "\<dots> \<le> \<bar>x\<bar> / 2 ^ 53"
    using ilog2_bounds(1)[OF pos] by (simp add: divide_right_mono)
  finally show ?thesis using fl_abs_err[OF False] by linarith
qed

lemma fl_err_bound: "\<bar>x\<bar> \<le> B \<Longrightarrow> \<bar>fl x - x\<bar> \<le> B / 2 ^ 53"
proof -
  assume "\<bar>x\<bar> \<le> B"
  then have "\<bar>x\<bar> / 2 ^ 53 \<le> B / 2 ^ 53" by (simp add: divide_right_mono)
  with fl_rel_err[of x] show ?thesis by linarith
qed

lemma fl_nonneg: "0 \<le> x \<Longrightarrow> 0 \<le> fl x"
  by (cases "x = 0")
     (auto simp: fl_zero fl_eq intro!: mult_nonneg_nonneg round_half_even_nonneg
        less_imp_le[OF powi_pos] divide_nonneg_nonneg)

text \<open>A number with at most 53 significant bits is a float: rounding leaves it alone.\<close>

lemma fl_dyadic:
  assumes n: "\<bar>n\<bar> < 2 ^ 53"
  shows "fl (of_int n / 2 ^ k) = of_int n / 2 ^ k"
proof (cases "n = 0")
  case True
  then show ?thesis by (simp add: fl_zero)
next
  case False
  define x :: rat where "x = of_int n / 2 ^ k"
  have x0: "x \<noteq> 0" using False by (simp add: x_def)
  then have pos: "0 < \<bar>x\<bar>" by simp
  define e where "e = ilog2 \<bar>x\<bar>"
  have "\<bar>x\<bar> = of_int \<bar>n\<bar> / 2 ^ k" by (simp add: x_def)
  also have "\<dots> < 2 ^ 53 / 2 ^ k"
  proof -
    have "(of_int \<bar>n\<bar> :: rat) < of_int (2 ^ 53)" using n by (simp only: of_int_less_iff)
    then show ?thesis by (simp add: divide_strict_right_mono)
  qed
  also have "\<dots> = 2 powi (53 - int k)"
    using power_int_diff[of "2::rat" 53 "int k"] by (simp add: power_int_def)
  finally have "2 powi e < (2::rat) powi (53 - int k)"
    using ilog2_bounds(1)[OF pos] unfolding e_def by linarith
  then have ek: "e < 53 - int k" by (rule powi_less_cancel)
  define m where "m = nat (52 - e - int k)"
  have m: "int m = 52 - e - int k" using ek by (simp add: m_def)
  have "x / 2 powi (e - 52) = of_int n * (2 powi (- int k) * 2 powi (52 - e))"
    by (simp add: x_def power_int_minus power_int_diff field_simps power_int_def)
  also have "2 powi (- int k) * 2 powi (52 - e) = (2::rat) powi (- int k + (52 - e))"
    using power_int_add[of "2::rat" "- int k" "52 - e"] by simp
  also have "- int k + (52 - e) = int m" using m by simp
  also have "of_int n * (2::rat) powi (int m) = of_int (n * 2 ^ m)"
    by (simp only: power_int_of_nat of_int_mult of_int_power of_int_numeral)
  finally have q: "x / 2 powi (e - 52) = of_int (n * 2 ^ m)" .
  have "fl x = of_int (n * 2 ^ m) * 2 powi (e - 52)"
    unfolding fl_eq[OF x0] e_def[symmetric] q round_half_even_of_int ..
  also have "\<dots> = x" using q[symmetric] powi_pos[of "e - 52"] by simp
  finally show ?thesis by (simp add: x_def)
qed

lemma fl_of_int: "\<bar>n\<bar> < 2 ^ 53 \<Longrightarrow> fl (of_int n) = of_int n"
  using fl_dyadic[of n 0] by simp

lemma py_float_exact: "\<bar>n\<bar> < 2 ^ 53 \<Longrightarrow> py_float n = of_int n"
  by (simp add: py_float_def fl_of_int)

lemma py_float_nonneg: "0 \<le> n \<Longrightarrow> 0 \<le> py_float n"
  by (simp add: py_float_def fl_nonneg)

lemma py_int_nonneg: "0 \<le> x \<Longrightarrow> 0 \<le> py_int x"
  by (simp add: py_int_def)

lemma fmul_nonneg: "0 \<le> x \<Longrightarrow> 0 \<le> y \<Longrightarrow> 0 \<le> fmul x y"
  by (simp add: fmul_def fl_nonneg)

section \<open>Facts about the geometry\<close>

lemma scale_exact: "\<bar>sz\<bar> < 2 ^ 53 \<Longrightarrow> scale sz = of_int sz / 1024"
  using fl_dyadic[of sz 10] by (simp add: scale_def truediv_def)

lemma scale_nonneg: "0 \<le> sz \<Longrightarrow> 0 \<le> scale sz"
  by (simp add: scale_def truediv_def fl_nonneg)

text \<open>For every size an image can have, a dimension \<^verbatim>\<open>int(k * scale)\<close> is computed
  without any rounding error: it is \<open>k * size\<close> divided by 1024, rounded down.\<close>

lemma scaled_exact:
  assumes k: "0 \<le> k" "k < 1024" and sz: "0 \<le> sz" "sz < 2 ^ 31"
  shows "py_int (fmul (py_float k) (scale sz)) = (k * sz) div 1024"
proof -
  have ks: "0 \<le> k * sz" using k sz by simp
  have "k * sz \<le> 1024 * sz" using k sz by (simp add: mult_right_mono)
  then have b: "\<bar>k * sz\<bar> < 2 ^ 53" using sz ks by simp
  have pk: "py_float k = of_int k" using k by (intro py_float_exact) simp
  have sc: "scale sz = of_int sz / 1024" using sz by (intro scale_exact) simp
  have "fmul (py_float k) (scale sz) = fl (of_int (k * sz) / 2 ^ 10)"
    unfolding fmul_def pk sc by simp
  also have "\<dots> = of_int (k * sz) / 2 ^ 10" using b by (rule fl_dyadic)
  finally have "fmul (py_float k) (scale sz) = of_int (k * sz) / of_int 1024" by simp
  moreover have "(0::rat) \<le> of_int (k * sz) / of_int 1024"
  proof -
    have "(0::rat) \<le> of_int (k * sz)" using ks by (simp only: of_int_0_le_iff)
    then show ?thesis by (simp only: of_int_numeral divide_nonneg_nonneg zero_le_numeral)
  qed
  ultimately show ?thesis
    unfolding py_int_def by (simp only: if_True floor_divide_of_int_eq)
qed

lemma bubble_size_exact: "0 \<le> sz \<Longrightarrow> sz < 2 ^ 31 \<Longrightarrow> bubble_size sz = (700 * sz) div 1024"
  unfolding bubble_size_def by (rule scaled_exact) simp_all

lemma tail_size_exact: "0 \<le> sz \<Longrightarrow> sz < 2 ^ 31 \<Longrightarrow> tail_size sz = (60 * sz) div 1024"
  unfolding tail_size_def by (rule scaled_exact) simp_all

lemma sparkle_size_exact: "0 \<le> sz \<Longrightarrow> sz < 2 ^ 31 \<Longrightarrow> sparkle_size sz = (200 * sz) div 1024"
  unfolding sparkle_size_def by (rule scaled_exact) simp_all

lemma dot_size_exact: "0 \<le> sz \<Longrightarrow> sz < 2 ^ 31 \<Longrightarrow> dot_size sz = (20 * sz) div 1024"
  unfolding dot_size_def by (rule scaled_exact) simp_all

lemma shadow_offset_exact: "0 \<le> sz \<Longrightarrow> sz < 2 ^ 31 \<Longrightarrow> shadow_offset sz = (8 * sz) div 1024"
  unfolding shadow_offset_def by (rule scaled_exact) simp_all

lemma bubble_size_nonneg: "0 \<le> sz \<Longrightarrow> 0 \<le> bubble_size sz"
  by (simp add: bubble_size_def py_int_nonneg fmul_nonneg py_float_nonneg scale_nonneg)

lemma dot_size_nonneg: "0 \<le> sz \<Longrightarrow> 0 \<le> dot_size sz"
  by (simp add: dot_size_def py_int_nonneg fmul_nonneg py_float_nonneg scale_nonneg)

section \<open>Facts about the image library\<close>

lemma length_map_pixels: "length (map_pixels f rs) = length rs"
  by (simp add: map_pixels_def)

lemma map_pixels_rows:
  assumes "list_all (\<lambda>row. length row = n \<and> list_all P row) rs"
    and "\<And>x y p. P p \<Longrightarrow> Q (f x y p)"
  shows "list_all (\<lambda>row. length row = n \<and> list_all Q row) (map_pixels f rs)"
  using assms unfolding map_pixels_def list_all_iff
  by (auto simp: in_set_enumerate_eq) (metis nth_mem)

lemma pixel_mode_ink: "pixel_mode (ink m c) = m"
  by (cases m; cases c) simp_all

lemma pixel_mode_blend: "pixel_mode (blend p s a) = pixel_mode p"
  by (cases p; cases s) simp_all

lemma new_image_ok:
  assumes "0 \<le> w" "w < 2 ^ 29 - 1" "0 \<le> h" "h < 2 ^ 31"
  shows "\<exists>img. new_image m (w, h) c = Inr img \<and> well_formed img \<and> mode img = m \<and> im_size img = (w, h)"
  using assms by (simp add: new_image_def well_formed_def list_all_iff pixel_mode_ink)

lemma draw_shape_ok:
  assumes "shape_error s = None" "well_formed img"
  shows "\<exists>img'. draw_shape covers img s fill = Inr img' \<and> well_formed img' \<and>
           mode img' = mode img \<and> im_size img' = im_size img"
proof -
  obtain w h where wh: "im_size img = (w, h)" by (cases "im_size img")
  let ?f = "\<lambda>x y p. if covers s (x, y) then ink (mode img) fill else p"
  have rs: "list_all (\<lambda>row. length row = nat w \<and> list_all (\<lambda>p. pixel_mode p = mode img) row) (rows img)"
    using assms(2) by (simp add: well_formed_def wh)
  have "list_all (\<lambda>row. length row = nat w \<and> list_all (\<lambda>p. pixel_mode p = mode img) row)
          (map_pixels ?f (rows img))"
    by (rule map_pixels_rows[OF rs]) (simp add: pixel_mode_ink)
  then show ?thesis
    using assms by (simp add: draw_shape_def well_formed_def wh length_map_pixels)
qed

lemma draw_all_ok:
  assumes "list_all (\<lambda>c. shape_error (fst c) = None) cs" "well_formed img"
  shows "\<exists>img'. draw_all covers img cs = Inr img' \<and> well_formed img' \<and>
           mode img' = mode img \<and> im_size img' = im_size img"
  using assms
proof (induction cs arbitrary: img)
  case Nil
  then show ?case by simp
next
  case (Cons c cs)
  obtain s fill where c: "c = (s, fill)" by (cases c)
  from Cons.prems have s: "shape_error s = None" and cs: "list_all (\<lambda>c. shape_error (fst c) = None) cs"
    by (simp_all add: c)
  from draw_shape_ok[OF s Cons.prems(2)] obtain img1 where
    1: "draw_shape covers img s fill = Inr img1" "well_formed img1"
       "mode img1 = mode img" "im_size img1 = im_size img" by blast
  from Cons.IH[OF cs 1(2)] obtain img2 where
    2: "draw_all covers img1 cs = Inr img2" "well_formed img2"
       "mode img2 = mode img1" "im_size img2 = im_size img1" by blast
  show ?case using 1 2 by (simp add: c)
qed

lemma paste_ok:
  assumes "well_formed dst"
  shows "well_formed (paste dst src msk) \<and> mode (paste dst src msk) = mode dst \<and>
         im_size (paste dst src msk) = im_size dst"
proof -
  obtain w h where wh: "im_size dst = (w, h)" by (cases "im_size dst")
  let ?f = "\<lambda>x y p. case (pixel_at src x y, pixel_at msk x y) of
         (Some s, Some m) \<Rightarrow> blend p s (alpha m) | _ \<Rightarrow> p"
  have rs: "list_all (\<lambda>row. length row = nat w \<and> list_all (\<lambda>p. pixel_mode p = mode dst) row) (rows dst)"
    using assms by (simp add: well_formed_def wh)
  have "list_all (\<lambda>row. length row = nat w \<and> list_all (\<lambda>p. pixel_mode p = mode dst) row)
          (map_pixels ?f (rows dst))"
    by (rule map_pixels_rows[OF rs]) (simp add: pixel_mode_blend split: option.splits)
  then show ?thesis
    using assms by (simp add: paste_def well_formed_def wh length_map_pixels)
qed

lemma layer_calls_valid:
  assumes "0 \<le> sz"
  shows "list_all (\<lambda>c. shape_error (fst c) = None) (layer_calls sz)"
  using bubble_size_nonneg[OF assms] dot_size_nonneg[OF assms]
  by (simp add: layer_calls_def shadow_call_def bubble_call_def tail_call_def sparkle_calls_def
      accent_calls_def accent_positions_def)

lemma gradient_calls_valid: "list_all (\<lambda>c. shape_error (fst c) = None) (gradient_calls sz)"
  by (simp add: gradient_calls_def list_all_iff)

lemma draw_urgood_icon_returns:
  assumes "0 \<le> sz" "sz < 2 ^ 29 - 1"
  shows "\<exists>img. draw_urgood_icon covers sz = Inr img \<and> well_formed img \<and>
           mode img = ModeRGB \<and> im_size img = (sz, sz)"
proof -
  have big: "sz < 2 ^ 31" using assms(2) by simp
  from new_image_ok[OF assms assms(1) big] obtain img0 where
    0: "new_image ModeRGBA (sz, sz) (RGBA 0 0 0 0) = Inr img0" "well_formed img0" by blast
  from draw_all_ok[OF layer_calls_valid[OF assms(1)] 0(2)] obtain img where
    1: "draw_all covers img0 (layer_calls sz) = Inr img" by blast
  from new_image_ok[OF assms assms(1) big] obtain final0 where
    2: "new_image ModeRGB (sz, sz) (RGB 0 0 0) = Inr final0" "well_formed final0"
       "mode final0 = ModeRGB" "im_size final0 = (sz, sz)" by blast
  from draw_all_ok[OF gradient_calls_valid 2(2)] obtain final_img where
    3: "draw_all covers final0 (gradient_calls sz) = Inr final_img" "well_formed final_img"
       "mode final_img = mode final0" "im_size final_img = im_size final0" by blast
  have "draw_urgood_icon covers sz = Inr (paste final_img img img)"
    by (simp add: draw_urgood_icon_def 0 1 2 3)
  then show ?thesis using paste_ok[OF 3(2), of img img] 2 3 by simp
qed

lemma draw_urgood_icon_negative: "sz < 0 \<Longrightarrow> draw_urgood_icon covers sz = Inl ValueError"
  by (simp add: draw_urgood_icon_def new_image_def)




section \<open>The renderer returns an opaque square image\<close>




section \<open>Facts about the geometry at the sizes of an image\<close>

lemma div_1024_bounds: "1024 * (n div 1024) \<le> n \<and> n < 1024 * (n div 1024) + 1024" for n :: int
  by presburger

lemma div_1024_exact: "256 dvd sz \<Longrightarrow> 1024 * ((4 * k * sz) div 1024) = 4 * k * sz" for sz k :: int
  by (elim dvdE) simp

lemma fmul_scale_exact:
  assumes k: "0 \<le> k" "k < 1024" and sz: "0 \<le> sz" "sz < 2 ^ 31"
  shows "fmul (py_float k) (scale sz) = of_int (k * sz) / 1024"
proof -
  have ks: "0 \<le> k * sz" using k sz by simp
  have "k * sz \<le> 1024 * sz" using k sz by (simp add: mult_right_mono)
  then have b: "\<bar>k * sz\<bar> < 2 ^ 53" using sz ks by simp
  have pk: "py_float k = of_int k" using k by (intro py_float_exact) simp
  have sc: "scale sz = of_int sz / 1024" using sz by (intro scale_exact) simp
  have "fmul (py_float k) (scale sz) = fl (of_int (k * sz) / 2 ^ 10)"
    unfolding fmul_def pk sc by simp
  also have "\<dots> = of_int (k * sz) / 2 ^ 10" using b by (rule fl_dyadic)
  finally show ?thesis by simp
qed

lemma bubble_x_bounds:
  assumes "0 \<le> sz" "sz < 2 ^ 31"
  shows "0 \<le> bubble_x sz" "bubble_x sz \<le> sz"
proof -
  define side where "side = (700 * sz) div 1024"
  have d: "1024 * side \<le> 700 * sz \<and> 700 * sz < 1024 * side + 1024"
    using div_1024_bounds[of "700 * sz"] by (simp add: side_def)
  have s0: "0 \<le> side" using conjunct2[OF d] assms(1) by linarith
  have s1: "side \<le> sz" using conjunct1[OF d] assms(1) by linarith
  have bx: "bubble_x sz = (sz - side) div 2"
    by (simp add: bubble_x_def bubble_size_exact[OF assms] side_def)
  show "0 \<le> bubble_x sz" unfolding bx using s1 by linarith
  show "bubble_x sz \<le> sz" unfolding bx using s0 assms(1) by linarith
qed

text \<open>The top edge of the bubble is computed without rounding error.\<close>

lemma bubble_y_exact:
  assumes "0 \<le> sz" "sz < 2 ^ 31"
  shows "bubble_y sz = py_int (of_int (bubble_x sz) - 40 * of_int sz / 1024)"
proof -
  define n where "n = bubble_x sz"
  have n: "0 \<le> n" "n \<le> sz" using bubble_x_bounds[OF assms] by (simp_all add: n_def)
  have pn: "py_float n = of_int n" using n assms by (intro py_float_exact) simp
  have m: "fmul (py_float 40) (scale sz) = of_int (40 * sz) / 1024"
    using assms by (intro fmul_scale_exact) simp_all
  have b: "\<bar>1024 * n - 40 * sz\<bar> < 2 ^ 53" using n assms by simp
  have "of_int n - of_int (40 * sz) / 1024 = (of_int (1024 * n - 40 * sz) / 2 ^ 10 :: rat)"
    by (simp add: field_simps)
  then have "fsub (py_float n) (fmul (py_float 40) (scale sz)) = fl (of_int (1024 * n - 40 * sz) / 2 ^ 10)"
    unfolding fsub_def pn m by (rule arg_cong)
  also have "\<dots> = of_int (1024 * n - 40 * sz) / 2 ^ 10" using b by (rule fl_dyadic)
  also have "\<dots> = of_int n - 40 * of_int sz / 1024" by (simp add: field_simps)
  finally show ?thesis by (simp add: bubble_y_def bubble_x_def n_def)
qed

lemma geometry_16:
  "bubble_size 16 = 10" "bubble_x 16 = 3" "bubble_y 16 = 2" "tail_size 16 = 0"
  "sparkle_size 16 = 3" "dot_size 16 = 0" "shadow_offset 16 = 0"
proof -
  show bs: "bubble_size 16 = 10" by (simp add: bubble_size_exact)
  show bx: "bubble_x 16 = 3" by (simp add: bubble_x_def bs)
  show "bubble_y 16 = 2" by (simp add: bubble_y_exact bx py_int_def floor_eq_iff)
  show "tail_size 16 = 0" by (simp add: tail_size_exact)
  show "sparkle_size 16 = 3" by (simp add: sparkle_size_exact)
  show "dot_size 16 = 0" by (simp add: dot_size_exact)
  show "shadow_offset 16 = 0" by (simp add: shadow_offset_exact)
qed

lemma geometry_1024:
  "bubble_size 1024 = 700" "bubble_x 1024 = 162" "bubble_y 1024 = 122" "tail_size 1024 = 60"
  "sparkle_size 1024 = 200" "dot_size 1024 = 20" "shadow_offset 1024 = 8"
proof -
  show bs: "bubble_size 1024 = 700" by (simp add: bubble_size_exact)
  show bx: "bubble_x 1024 = 162" by (simp add: bubble_x_def bs)
  show "bubble_y 1024 = 122" by (simp add: bubble_y_exact bx py_int_def floor_eq_iff)
  show "tail_size 1024 = 60" by (simp add: tail_size_exact)
  show "sparkle_size 1024 = 200" by (simp add: sparkle_size_exact)
  show "dot_size 1024 = 20" by (simp add: dot_size_exact)
  show "shadow_offset 1024 = 8" by (simp add: shadow_offset_exact)
qed

lemma float_product_1: "py_int (fmul (py_float 10) (fl (2 / 10))) = 2"
  by code_simp

lemma float_product_2: "py_int (fmul (py_float 3) (fl (8 / 10))) = 2"
  by code_simp

lemma float_product_3: "py_int (fmul (py_float 200) (fl (8 / 10))) = 160"
  by code_simp


lemma tail_x_16: "tail_x 16 = 5"
  unfolding tail_x_def geometry_16 float_product_1 float_product_2 float_product_3 by simp

lemma dot_distance_16: "dot_distance 16 = 2"
  by (simp only: dot_distance_def geometry_16 float_product_1 float_product_2 float_product_3)

lemma dot_distance_1024: "dot_distance 1024 = 160"
  by (simp only: dot_distance_def geometry_1024 float_product_1 float_product_2 float_product_3)

lemma accent_calls_16:
  "accent_calls 16 =
     [(Ellipse (10, 5) (10, 5), RGBA 255 255 255 200),
      (Ellipse (6, 5) (6, 5), RGBA 255 255 255 200),
      (Ellipse (10, 9) (10, 9), RGBA 255 255 255 200)]"
  by (simp add: accent_calls_def accent_positions_def sparkle_center_x_def sparkle_center_y_def
      geometry_16 dot_distance_16)

lemma accent_calls_1024:
  "accent_calls 1024 =
     [(Ellipse (652, 292) (692, 332), RGBA 255 255 255 200),
      (Ellipse (332, 292) (372, 332), RGBA 255 255 255 200),
      (Ellipse (652, 612) (692, 652), RGBA 255 255 255 200)]"
  by (simp add: accent_calls_def accent_positions_def sparkle_center_x_def sparkle_center_y_def
      geometry_1024 dot_distance_1024)

lemma tail_call_16: "tail_call 16 = (Polygon [(5, 12), (5, 12), (5, 12)], sky_blue)"
  by (simp add: tail_call_def tail_x_16 tail_y_def geometry_16)

lemma draw_urgood_icon_rows:
  assumes "0 \<le> sz" "sz < 2 ^ 29 - 1"
  shows "\<exists>img. draw_urgood_icon covers sz = Inr img \<and> im_size img = (sz, sz) \<and>
           length (rows img) = nat sz \<and> list_all (\<lambda>row. length row = nat sz) (rows img)"
proof -
  from draw_urgood_icon_returns[OF assms] obtain img where
    i: "draw_urgood_icon covers sz = Inr img" "well_formed img" "im_size img = (sz, sz)" by blast
  from i(2,3) have "length (rows img) = nat sz" "list_all (\<lambda>row. length row = nat sz) (rows img)"
    by (auto simp: well_formed_def list_all_iff)
  with i show ?thesis by blast
qed

lemma spec_accent_radius_1024: "spec_accent_radius 1024 = 10"
  using fmul_scale_exact[of 10 1024] by (simp add: spec_accent_radius_def scale_def)

section \<open>The bubble's bounding box\<close>

text \<open>
  Claim C9.  For every size, the main bubble is drawn as the second call on the layer, a
  rounded rectangle whose bounding box is the one the specification describes: with
  \<^verbatim>\<open>scale = S / 1024\<close> it is a square of side \<^verbatim>\<open>int(700 * scale)\<close>, its left edge at
  \<^verbatim>\<open>(S - side) // 2\<close>, which centres it horizontally up to the odd pixel, and its top edge at
  \<^verbatim>\<open>int((S - side) // 2 - 40 * scale)\<close>.  For the sizes an image can have the floats
  commit no rounding error: the side is \<open>700 * S\<close> divided by 1024 and rounded down, and
  the top edge is the exact value of \<open>(S - side) div 2 - 40 * S / 1024\<close>, truncated.
\<close>

theorem bubble_bounding_box:
  "fst (bubble_call sz) =
     RoundedRectangle (fst (spec_bubble_box sz)) (snd (spec_bubble_box sz)) (bubble_radius sz) \<and>
   layer_calls sz ! 1 = bubble_call sz \<and>
   spec_bubble_box sz =
     ((bubble_x sz, bubble_y sz), (bubble_x sz + bubble_size sz, bubble_y sz + bubble_size sz)) \<and>
   bubble_size sz = py_int (fmul (py_float 700) (scale sz)) \<and>
   scale sz = truediv sz 1024 \<and>
   bubble_x sz = (sz - bubble_size sz) div 2 \<and>
   bubble_x sz \<le> sz - (bubble_x sz + bubble_size sz) \<and>
   sz - (bubble_x sz + bubble_size sz) \<le> bubble_x sz + 1 \<and>
   (0 \<le> sz \<and> sz < 2 ^ 31 \<longrightarrow>
      bubble_size sz = (700 * sz) div 1024 \<and>
      bubble_y sz = py_int (of_int (bubble_x sz) - 40 * of_int sz / 1024))"
proof -
  have "bubble_x sz \<le> sz - (bubble_x sz + bubble_size sz) \<and>
        sz - (bubble_x sz + bubble_size sz) \<le> bubble_x sz + 1"
    unfolding bubble_x_def by presburger
  moreover have "fst (bubble_call sz) =
     RoundedRectangle (fst (spec_bubble_box sz)) (snd (spec_bubble_box sz)) (bubble_radius sz) \<and>
   layer_calls sz ! 1 = bubble_call sz \<and>
   spec_bubble_box sz =
     ((bubble_x sz, bubble_y sz), (bubble_x sz + bubble_size sz, bubble_y sz + bubble_size sz)) \<and>
   bubble_size sz = py_int (fmul (py_float 700) (scale sz)) \<and>
   scale sz = truediv sz 1024 \<and>
   bubble_x sz = (sz - bubble_size sz) div 2"
    by (simp add: bubble_call_def spec_bubble_box_def Let_def layer_calls_def
        bubble_x_def bubble_y_def bubble_size_def scale_def)
  ultimately show ?thesis
    using bubble_size_exact[of sz] bubble_y_exact[of sz] by blast
qed

theorem bubble_bounding_box_witness:
  "(0::int) \<le> 1024 \<and> (1024::int) < 2 ^ 31 \<and>
   fst (bubble_call 1024) = RoundedRectangle (162, 122) (862, 822) (bubble_radius 1024) \<and>
   spec_bubble_box 1024 = ((162, 122), (862, 822))"
  using bubble_bounding_box[of 1024] by (simp add: geometry_1024)

section \<open>Dimensions and the size\<close>

text \<open>
  Claim C7, as stated, fails: the ratio of a dimension to the size is not the same at
  the sizes 16 and 1024, for any of the four dimensions, because each dimension is
  truncated to an integer.
\<close>

theorem linear_scaling_counterexample:
  "(of_int (bubble_size 16) / of_int 16 :: rat) \<noteq> of_int (bubble_size 1024) / of_int 1024 \<and>
   (of_int (tail_size 16) / of_int 16 :: rat) \<noteq> of_int (tail_size 1024) / of_int 1024 \<and>
   (of_int (sparkle_size 16) / of_int 16 :: rat) \<noteq> of_int (sparkle_size 1024) / of_int 1024 \<and>
   (of_int (dot_size 16) / of_int 16 :: rat) \<noteq> of_int (dot_size 1024) / of_int 1024"
  by (simp add: bubble_size_exact tail_size_exact sparkle_size_exact dot_size_exact)

text \<open>
  Claim C7, amended.  For every size from 1 to \<open>2\<^sup>3\<^sup>1 - 1\<close>, the bubble side, the tail size,
  the sparkle size and the dot radius are \<open>k * S / 1024\<close> rounded down to an integer, for
  \<open>k\<close> = 700, 60, 200 and 20: each lies less than one pixel below the linear value, so its
  ratio to \<open>S\<close> is at most \<open>k / 1024\<close> and less than \<open>1 / S\<close> below it; the ratio is exactly
  \<open>k / 1024\<close> when 256 divides the size.
\<close>

theorem dimensions_scale_up_to_truncation:
  assumes "0 < sz" "sz < 2 ^ 31"
  shows "bubble_size sz = (700 * sz) div 1024 \<and> tail_size sz = (60 * sz) div 1024 \<and>
         sparkle_size sz = (200 * sz) div 1024 \<and> dot_size sz = (20 * sz) div 1024 \<and>
         1024 * bubble_size sz \<le> 700 * sz \<and> 700 * sz < 1024 * bubble_size sz + 1024 \<and>
         1024 * tail_size sz \<le> 60 * sz \<and> 60 * sz < 1024 * tail_size sz + 1024 \<and>
         1024 * sparkle_size sz \<le> 200 * sz \<and> 200 * sz < 1024 * sparkle_size sz + 1024 \<and>
         1024 * dot_size sz \<le> 20 * sz \<and> 20 * sz < 1024 * dot_size sz + 1024 \<and>
         (256 dvd sz \<longrightarrow> 1024 * bubble_size sz = 700 * sz \<and> 1024 * tail_size sz = 60 * sz \<and>
            1024 * sparkle_size sz = 200 * sz \<and> 1024 * dot_size sz = 20 * sz)"
proof -
  have e: "bubble_size sz = (700 * sz) div 1024" "tail_size sz = (60 * sz) div 1024"
    "sparkle_size sz = (200 * sz) div 1024" "dot_size sz = (20 * sz) div 1024"
    using assms by (simp_all add: bubble_size_exact tail_size_exact sparkle_size_exact dot_size_exact)
  have x: "256 dvd sz \<Longrightarrow> 1024 * ((700 * sz) div 1024) = 700 * sz"
     "256 dvd sz \<Longrightarrow> 1024 * ((60 * sz) div 1024) = 60 * sz"
     "256 dvd sz \<Longrightarrow> 1024 * ((200 * sz) div 1024) = 200 * sz"
     "256 dvd sz \<Longrightarrow> 1024 * ((20 * sz) div 1024) = 20 * sz"
    using div_1024_exact[of sz 175] div_1024_exact[of sz 15] div_1024_exact[of sz 50]
      div_1024_exact[of sz 5] by simp_all
  show ?thesis
    unfolding e
    using div_1024_bounds[of "700 * sz"] div_1024_bounds[of "60 * sz"]
      div_1024_bounds[of "200 * sz"] div_1024_bounds[of "20 * sz"] x
    by blast
qed

theorem dimensions_scale_up_to_truncation_witness:
  "(0::int) < 256 \<and> (256::int) < 2 ^ 31 \<and>
   bubble_size 256 = 175 \<and> tail_size 256 = 15 \<and> sparkle_size 256 = 50 \<and> dot_size 256 = 5"
  using dimensions_scale_up_to_truncation[of 256] by simp

section \<open>The accent dots\<close>

text \<open>
  Claim C6, as stated, fails: at size 1024 the three ellipses have bounding boxes 40
  pixels wide, that is radius 20, where the specification's \<^verbatim>\<open>10 * scale\<close> is 10.
\<close>

theorem accent_radius_counterexample:
  "map fst (accent_calls 1024) =
     [Ellipse (652, 292) (692, 332), Ellipse (332, 292) (372, 332), Ellipse (652, 612) (692, 652)] \<and>
   spec_accent_radius 1024 = 10 \<and>
   of_int (dot_size 1024) \<noteq> spec_accent_radius 1024"
  by (simp add: accent_calls_1024 spec_accent_radius_1024 geometry_1024)

text \<open>
  Claim C6, amended.  For every size, the renderer draws exactly three ellipses, the
  last three calls on the layer, filled with white of alpha 200.  Their centres are the
  sparkle centre moved by \<^verbatim>\<open>int(sparkle_size * 0.8)\<close> to the upper right, the upper left and
  the lower right, and each bounding box reaches \<^verbatim>\<open>int(20 * scale)\<close> pixels from the centre
  on every side: the radius is \<^verbatim>\<open>int(20 * scale)\<close>, with \<^verbatim>\<open>scale = S / 1024\<close>.
\<close>

theorem accent_dots:
  "accent_calls sz =
     [(Ellipse (sparkle_center_x sz + dot_distance sz - dot_size sz,
                sparkle_center_y sz - dot_distance sz - dot_size sz)
               (sparkle_center_x sz + dot_distance sz + dot_size sz,
                sparkle_center_y sz - dot_distance sz + dot_size sz),
       RGBA 255 255 255 200),
      (Ellipse (sparkle_center_x sz - dot_distance sz - dot_size sz,
                sparkle_center_y sz - dot_distance sz - dot_size sz)
               (sparkle_center_x sz - dot_distance sz + dot_size sz,
                sparkle_center_y sz - dot_distance sz + dot_size sz),
       RGBA 255 255 255 200),
      (Ellipse (sparkle_center_x sz + dot_distance sz - dot_size sz,
                sparkle_center_y sz + dot_distance sz - dot_size sz)
               (sparkle_center_x sz + dot_distance sz + dot_size sz,
                sparkle_center_y sz + dot_distance sz + dot_size sz),
       RGBA 255 255 255 200)] \<and>
   filter (\<lambda>c. is_ellipse (fst c)) (layer_calls sz) = accent_calls sz \<and>
   dot_size sz = py_int (fmul (py_float 20) (scale sz)) \<and>
   dot_distance sz = py_int (fmul (py_float (sparkle_size sz)) (fl (8 / 10))) \<and>
   sparkle_size sz = py_int (fmul (py_float 200) (scale sz)) \<and>
   scale sz = truediv sz 1024 \<and>
   sparkle_center_x sz = bubble_x sz + bubble_size sz div 2 \<and>
   sparkle_center_y sz = bubble_y sz + bubble_size sz div 2"
  by (simp add: accent_calls_def accent_positions_def layer_calls_def shadow_call_def
      bubble_call_def tail_call_def sparkle_calls_def is_ellipse_def
      dot_size_def dot_distance_def sparkle_size_def scale_def
      sparkle_center_x_def sparkle_center_y_def)

theorem accent_dots_witness:
  "filter (\<lambda>c. is_ellipse (fst c)) (layer_calls 1024) =
     [(Ellipse (652, 292) (692, 332), RGBA 255 255 255 200),
      (Ellipse (332, 292) (372, 332), RGBA 255 255 255 200),
      (Ellipse (652, 612) (692, 652), RGBA 255 255 255 200)]"
  using accent_dots[of 1024] by (simp only: accent_calls_1024)

section \<open>The smallest size\<close>

text \<open>
  Claim C10.  At size 16 the tail size \<^verbatim>\<open>int(60 * 16 / 1024)\<close> is 0, so the three corners of
  the tail are one point; the dot radius \<^verbatim>\<open>int(20 * 16 / 1024)\<close> is 0, so the bounding box
  of each accent dot is a single pixel; and the renderer returns an image of 16 rows of
  16 pixels, whatever the rasterizer.
\<close>

theorem smallest_size_degenerate:
  "tail_size 16 = 0 \<and>
   fst (tail_call 16) = Polygon [(5, 12), (5, 12), (5, 12)] \<and>
   dot_size 16 = 0 \<and>
   map fst (accent_calls 16) = [Ellipse (10, 5) (10, 5), Ellipse (6, 5) (6, 5), Ellipse (10, 9) (10, 9)] \<and>
   (\<exists>img. draw_urgood_icon covers 16 = Inr img \<and> im_size img = (16, 16) \<and>
      length (rows img) = 16 \<and> list_all (\<lambda>row. length row = 16) (rows img))"
  using draw_urgood_icon_rows[of 16 covers]
  by (simp add: geometry_16 tail_call_16 accent_calls_16)

theorem smallest_size_degenerate_witness:
  "tail_size 16 = 0 \<and> dot_size 16 = 0 \<and>
   (\<exists>img. draw_urgood_icon box_covers 16 = Inr img \<and> im_size img = (16, 16))"
  using smallest_size_degenerate[of box_covers] by blast

section \<open>Facts about the gradient\<close>

lemma abs_mult_bound: "\<bar>x\<bar> \<le> A \<Longrightarrow> \<bar>y\<bar> \<le> B \<Longrightarrow> \<bar>x * y\<bar> \<le> A * B" for x y :: rat
  by (simp add: abs_mult mult_mono)

text \<open>The error of the interpolation: five roundings, each relative to a value below 8192.\<close>

lemma interpolation_error:
  fixes l d y sz :: int
  assumes l: "0 \<le> l" "l \<le> 255" and d: "0 \<le> d" "d \<le> 255" and y: "0 \<le> y" "y < sz"
  defines "q \<equiv> (of_int y / of_int sz :: rat)"
  defines "G \<equiv> fadd (fmul (py_float l) (fsub (py_float 1) (truediv y sz)))
                     (fmul (py_float d) (truediv y sz))"
  shows "\<bar>G - (of_int l - (of_int l - of_int d) * q)\<bar> \<le> 1 / 2 ^ 39"
proof -
  define u :: rat where "u = 1 / 2 ^ 53"
  define L D :: rat where "L = of_int l" and "D = of_int d"
  have L: "\<bar>L\<bar> \<le> 255" and D: "\<bar>D\<bar> \<le> 255" using l d by (simp_all add: L_def D_def)
  have q: "0 \<le> q" "q \<le> 1" using y by (simp_all add: q_def)
  have pl: "py_float l = L" unfolding L_def using l by (intro py_float_exact) simp
  have pd: "py_float d = D" unfolding D_def using d by (intro py_float_exact) simp
  have p1: "py_float 1 = 1" using py_float_exact[of 1] by simp
  define r where "r = fl q"
  define t where "t = 1 - r"
  define a where "a = fl t"
  define p where "p = fl (L * a)"
  define m where "m = fl (D * r)"
  have G: "G = fl (p + m)"
    by (simp add: G_def fadd_def fmul_def fsub_def truediv_def pl pd p1 q_def r_def t_def a_def
        p_def m_def)
  have u: "0 \<le> u" "u \<le> 1 / 8192" by (simp_all add: u_def)
  have fe: "\<bar>fl x - x\<bar> \<le> B * u" if "\<bar>x\<bar> \<le> B" for x B
    using fl_err_bound[OF that] by (simp add: u_def)
  have e1: "\<bar>r - q\<bar> \<le> 1 * u" unfolding r_def using q by (intro fe) simp
  have r: "\<bar>r\<bar> \<le> 2" using e1 q u by linarith
  have t: "\<bar>t\<bar> \<le> 4" unfolding t_def using r by linarith
  have e2: "\<bar>a - t\<bar> \<le> 4 * u" unfolding a_def by (rule fe[OF t])
  have a: "\<bar>a\<bar> \<le> 8" using e2 t u by linarith
  have La: "\<bar>L * a\<bar> \<le> 2048" using abs_mult_bound[OF L a] by simp
  have e3: "\<bar>p - L * a\<bar> \<le> 2048 * u" unfolding p_def by (rule fe[OF La])
  have Dr: "\<bar>D * r\<bar> \<le> 2048" using abs_mult_bound[OF D r] by simp
  have e4: "\<bar>m - D * r\<bar> \<le> 2048 * u" unfolding m_def by (rule fe[OF Dr])
  have pm: "\<bar>p + m\<bar> \<le> 8192" using e3 e4 La Dr u by linarith
  have e5: "\<bar>G - (p + m)\<bar> \<le> 8192 * u" unfolding G by (rule fe[OF pm])
  have Le2: "\<bar>L * (a - t)\<bar> \<le> 255 * (4 * u)" by (rule abs_mult_bound[OF L e2])
  have Le1: "\<bar>L * (r - q)\<bar> \<le> 255 * (1 * u)" by (rule abs_mult_bound[OF L e1])
  have De1: "\<bar>D * (r - q)\<bar> \<le> 255 * (1 * u)" by (rule abs_mult_bound[OF D e1])
  have split: "G - (L - (L - D) * q) =
      (G - (p + m)) + (p - L * a) + (m - D * r) + L * (a - t) - L * (r - q) + D * (r - q)"
    by (simp add: t_def algebra_simps)
  have "\<bar>G - (L - (L - D) * q)\<bar> \<le> 8192 * u + 2048 * u + 2048 * u + 255 * (4 * u) + 255 * u + 255 * u"
    unfolding split using e5 e3 e4 Le2 Le1 De1 by linarith
  also have "\<dots> \<le> 1 / 2 ^ 39" by (simp add: u_def)
  finally show ?thesis by (simp add: L_def D_def)
qed

lemma gradient_channel_spec:
  "gradient_channel i sz y = spec_gradient_channel (band sky_blue_light i) (band sky_blue i) sz y"
  by (simp add: gradient_channel_def spec_gradient_channel_def Let_def)

text \<open>Between the endpoints, when they differ.\<close>

lemma interpolation_between:
  fixes l d y sz :: int
  assumes l: "l \<le> 255" and d: "0 \<le> d" "d < l" and y: "0 \<le> y" "y < sz" and sz: "sz < 2 ^ 31"
  shows "d \<le> spec_gradient_channel l d sz y \<and> spec_gradient_channel l d sz y \<le> l"
proof -
  define q :: rat where "q = of_int y / of_int sz"
  define G where "G = fadd (fmul (py_float l) (fsub (py_float 1) (truediv y sz)))
                     (fmul (py_float d) (truediv y sz))"
  define v :: rat where "v = of_int l - (of_int l - of_int d) * q"
  define \<epsilon> :: rat where "\<epsilon> = 1 / 2 ^ 39"
  define w :: rat where "w = 1 / of_int sz"
  have err: "\<bar>G - v\<bar> \<le> \<epsilon>"
    unfolding G_def v_def q_def \<epsilon>_def using l d y by (intro interpolation_error) simp_all
  have szpos: "(0::rat) < of_int sz" using y by simp
  have "y \<le> sz - 1" using y(2) by simp
  then have "(of_int y :: rat) \<le> of_int (sz - 1)" by (simp only: of_int_le_iff)
  then have "q \<le> of_int (sz - 1) / of_int sz"
    unfolding q_def using szpos by (intro divide_right_mono) simp_all
  also have "\<dots> = 1 - w" using szpos by (simp add: w_def field_simps)
  finally have q1: "q \<le> 1 - w" .
  have q0: "0 \<le> q" using y by (simp add: q_def)
  have "sz \<le> 2 ^ 31" using sz by simp
  then have "(of_int sz :: rat) \<le> of_int (2 ^ 31)" by (simp only: of_int_le_iff)
  then have "(of_int sz :: rat) \<le> 2 ^ 31" by simp
  then have "1 / 2 ^ 31 \<le> w" unfolding w_def using szpos by (intro divide_left_mono) simp_all
  moreover have "\<epsilon> < 1 / 2 ^ 31" by (simp add: \<epsilon>_def)
  ultimately have w: "\<epsilon> < w" by (rule less_le_trans[rotated])
  have e0: "0 \<le> \<epsilon>" "\<epsilon> < 1" by (simp_all add: \<epsilon>_def)
  have "d + 1 \<le> l" using d(2) by simp
  then have "(of_int (d + 1) :: rat) \<le> of_int l" by (simp only: of_int_le_iff)
  then have ld: "(1::rat) \<le> of_int l - of_int d" by simp
  have w0: "0 \<le> w" using szpos by (simp add: w_def)
  have "1 * w \<le> (of_int l - of_int d) * w" using ld w0 by (intro mult_right_mono)
  moreover have "(of_int l - of_int d) * q \<le> (of_int l - of_int d) * (1 - w)"
    using q1 ld by (intro mult_left_mono) simp_all
  moreover have "(of_int l - of_int d) * (1 - w) = (of_int l - of_int d) - (of_int l - of_int d) * w"
    by (simp add: algebra_simps)
  ultimately have lo: "of_int d + w \<le> v" unfolding v_def by linarith
  have "0 \<le> (of_int l - of_int d) * q" using ld q0 by (intro mult_nonneg_nonneg) simp_all
  then have hi: "v \<le> of_int l" unfolding v_def by linarith
  have Glo: "of_int d \<le> G" using err lo w by linarith
  have Ghi: "G < of_int l + 1" using err hi e0 by linarith
  have "(0::rat) \<le> of_int d" using d(1) by simp
  then have G0: "0 \<le> G" using Glo by linarith
  have c: "spec_gradient_channel l d sz y = \<lfloor>G\<rfloor>"
    using G0 by (simp add: spec_gradient_channel_def G_def py_int_def)
  have "d \<le> \<lfloor>G\<rfloor>" using Glo by (simp add: le_floor_iff)
  moreover have "\<lfloor>G\<rfloor> \<le> l" using Ghi by (simp add: floor_le_iff)
  ultimately show ?thesis unfolding c by simp
qed

lemma interpolation_row_0:
  assumes "\<bar>l\<bar> < 2 ^ 53" "\<bar>d\<bar> < 2 ^ 53"
  shows "spec_gradient_channel l d sz 0 = l"
proof -
  have "py_float l = of_int l" "py_float d = of_int d" "py_float 1 = 1"
    using assms py_float_exact[of 1] by (simp_all add: py_float_exact)
  moreover have "fl (of_int l) = of_int l" using assms(1) by (rule fl_of_int)
  ultimately show ?thesis
    by (simp add: spec_gradient_channel_def truediv_def fsub_def fmul_def fadd_def fl_zero
        fl_of_int[of 1, simplified] py_int_def)
qed

lemma interpolation_last_row:
  fixes l d sz :: int
  assumes l: "l \<le> 255" and d: "0 \<le> d" "d < l" and sz: "l - d < sz" "sz < 2 ^ 31"
  shows "spec_gradient_channel l d sz (sz - 1) = d"
proof -
  define y where "y = sz - 1"
  have y: "0 \<le> y" "y < sz" using sz d by (simp_all add: y_def)
  define q :: rat where "q = of_int y / of_int sz"
  define G where "G = fadd (fmul (py_float l) (fsub (py_float 1) (truediv y sz)))
                     (fmul (py_float d) (truediv y sz))"
  define v :: rat where "v = of_int l - (of_int l - of_int d) * q"
  define \<epsilon> :: rat where "\<epsilon> = 1 / 2 ^ 39"
  define w :: rat where "w = 1 / of_int sz"
  have err: "\<bar>G - v\<bar> \<le> \<epsilon>"
    unfolding G_def v_def q_def \<epsilon>_def using l d y by (intro interpolation_error) simp_all
  have szpos: "(0::rat) < of_int sz" using y by simp
  have q: "q = 1 - w" using szpos by (simp add: q_def w_def y_def field_simps)
  have "sz \<le> 2 ^ 31" using sz by simp
  then have "(of_int sz :: rat) \<le> of_int (2 ^ 31)" by (simp only: of_int_le_iff)
  then have "(of_int sz :: rat) \<le> 2 ^ 31" by simp
  then have "1 / 2 ^ 31 \<le> w" unfolding w_def using szpos by (intro divide_left_mono) simp_all
  moreover have "\<epsilon> < 1 / 2 ^ 31" by (simp add: \<epsilon>_def)
  ultimately have w: "\<epsilon> < w" by (rule less_le_trans[rotated])
  have "l - d \<le> sz - 1" using sz(1) by simp
  then have "(of_int (l - d) :: rat) \<le> of_int (sz - 1)" by (simp only: of_int_le_iff)
  then have "(of_int l - of_int d) / of_int sz \<le> (of_int sz - 1) / (of_int sz :: rat)"
    using szpos by (intro divide_right_mono) simp_all
  also have "\<dots> = 1 - w" using szpos by (simp add: w_def field_simps)
  finally have "(of_int l - of_int d) * w \<le> 1 - w" by (simp add: w_def)
  moreover have "v = of_int d + (of_int l - of_int d) * w"
    by (simp add: v_def q algebra_simps)
  ultimately have "v \<le> of_int d + 1 - w" by linarith
  then have Ghi: "G < of_int d + 1" using err w by linarith
  have lo: "d \<le> spec_gradient_channel l d sz y"
    using interpolation_between[OF l d y sz(2)] by simp
  have "spec_gradient_channel l d sz y \<le> d"
  proof (cases "0 \<le> G")
    case True
    then have "spec_gradient_channel l d sz y = \<lfloor>G\<rfloor>"
      by (simp add: spec_gradient_channel_def G_def py_int_def)
    moreover have "\<lfloor>G\<rfloor> \<le> d" using Ghi by (simp add: floor_le_iff)
    ultimately show ?thesis by simp
  next
    case False
    then have "spec_gradient_channel l d sz y = \<lceil>G\<rceil>"
      by (simp add: spec_gradient_channel_def G_def py_int_def)
    moreover have "\<lceil>G\<rceil> \<le> 0" using False by (simp add: ceiling_le_iff)
    ultimately show ?thesis using d(1) by linarith
  qed
  with lo show ?thesis by (simp add: y_def)
qed

lemma interpolation_equal_endpoints:
  fixes l y sz :: int
  assumes l: "0 < l" "l \<le> 255" and y: "0 \<le> y" "y < sz"
  shows "l - 1 \<le> spec_gradient_channel l l sz y \<and> spec_gradient_channel l l sz y \<le> l"
proof -
  define G where "G = fadd (fmul (py_float l) (fsub (py_float 1) (truediv y sz)))
                     (fmul (py_float l) (truediv y sz))"
  define \<epsilon> :: rat where "\<epsilon> = 1 / 2 ^ 39"
  have "\<bar>G - (of_int l - (of_int l - of_int l) * (of_int y / of_int sz))\<bar> \<le> \<epsilon>"
    unfolding G_def \<epsilon>_def using l y by (intro interpolation_error) simp_all
  then have err: "\<bar>G - of_int l\<bar> \<le> \<epsilon>" by simp
  have e0: "0 \<le> \<epsilon>" "\<epsilon> < 1" by (simp_all add: \<epsilon>_def)
  have "(of_int 1 :: rat) \<le> of_int l" using l(1) by (simp only: of_int_le_iff)
  then have l1: "(1::rat) \<le> of_int l" by simp
  have Glo: "of_int l - 1 \<le> G" and Ghi: "G < of_int l + 1" and G0: "0 \<le> G"
    using err e0 l1 by linarith+
  have c: "spec_gradient_channel l l sz y = \<lfloor>G\<rfloor>"
    using G0 by (simp add: spec_gradient_channel_def G_def py_int_def)
  have "of_int (l - 1) \<le> G" using Glo by simp
  then have "l - 1 \<le> \<lfloor>G\<rfloor>" by (simp only: le_floor_iff)
  moreover have "\<lfloor>G\<rfloor> \<le> l" using Ghi by (simp add: floor_le_iff)
  ultimately show ?thesis unfolding c by simp
qed

lemma bands: "band sky_blue_light 0 = 102" "band sky_blue_light 1 = 178" "band sky_blue_light 2 = 255"
  "band sky_blue 0 = 77" "band sky_blue 1 = 166" "band sky_blue 2 = 255"
  "band sky_blue_light (Suc 0) = 178" "band sky_blue (Suc 0) = 166"
  by (simp_all add: sky_blue_def sky_blue_light_def)

lemma gradient_fill_2_1: "gradient_fill 2 1 = RGB 89 172 255"
  by code_simp

lemma gradient_fill_7_3: "gradient_fill 7 3 = RGB 91 172 254"
  by code_simp

text \<open>The blue channel, whose endpoints are both 255, is 254 or 255.\<close>

lemma gradient_blue:
  assumes "0 \<le> y" "y < sz"
  shows "254 \<le> band (gradient_fill sz y) 2 \<and> band (gradient_fill sz y) 2 \<le> 255"
  using interpolation_equal_endpoints[of 255 y sz] assms
  by (simp add: gradient_fill_def gradient_channel_spec bands)

section \<open>The background gradient\<close>

text \<open>
  Claim C3, as stated, fails.  At size 2 the last row is \<open>(89, 172, 255)\<close>, halfway
  between the endpoints and not the dark endpoint \<open>(77, 166, 255)\<close> within rounding: the
  ratio \<^verbatim>\<open>y / size\<close> never reaches 1.  And at size 7 the blue of row 3 is 254, below both
  endpoints, which are 255: the float sum is just below 255 and \<^verbatim>\<open>int\<close> truncates it.
\<close>

theorem gradient_counterexample:
  "gradient_fill 2 (2 - 1) = RGB 89 172 255 \<and>
   \<not> within_rounding (gradient_fill 2 (2 - 1)) sky_blue \<and>
   gradient_fill 7 3 = RGB 91 172 254 \<and>
   \<not> (band sky_blue 2 \<le> band (gradient_fill 7 3) 2)"
  by (simp add: gradient_fill_2_1 gradient_fill_7_3 within_rounding_def sky_blue_def)

text \<open>
  Claim C3, amended.  For every size below \<open>2\<^sup>3\<^sup>1\<close> and every row \<open>y\<close> from 0 to \<open>size - 1\<close>,
  each channel of the row's colour is the integer truncation of
  \<^verbatim>\<open>light * (1 - y / size) + dark * (y / size)\<close>, computed in floats; row 0 has exactly the
  light colour; the red and the green of every row lie between those of the dark and of
  the light endpoint; and from size 26 on, the red and the green of the last row are
  those of the dark endpoint.
\<close>

theorem gradient_rows:
  assumes "0 \<le> y" "y < sz" "sz < 2 ^ 31"
  shows "gradient_fill sz y =
           RGB (spec_gradient_channel (band sky_blue_light 0) (band sky_blue 0) sz y)
               (spec_gradient_channel (band sky_blue_light 1) (band sky_blue 1) sz y)
               (spec_gradient_channel (band sky_blue_light 2) (band sky_blue 2) sz y) \<and>
         gradient_fill sz 0 = sky_blue_light \<and>
         band sky_blue 0 \<le> band (gradient_fill sz y) 0 \<and>
         band (gradient_fill sz y) 0 \<le> band sky_blue_light 0 \<and>
         band sky_blue 1 \<le> band (gradient_fill sz y) 1 \<and>
         band (gradient_fill sz y) 1 \<le> band sky_blue_light 1 \<and>
         (26 \<le> sz \<longrightarrow>
            band (gradient_fill sz (sz - 1)) 0 = band sky_blue 0 \<and>
            band (gradient_fill sz (sz - 1)) 1 = band sky_blue 1)"
proof -
  have f: "gradient_fill sz y' =
           RGB (spec_gradient_channel 102 77 sz y') (spec_gradient_channel 178 166 sz y')
               (spec_gradient_channel 255 255 sz y')" for y'
    by (simp add: gradient_fill_def gradient_channel_spec bands)
  have r0: "gradient_fill sz 0 = sky_blue_light"
    by (simp add: f interpolation_row_0 sky_blue_light_def)
  have red: "77 \<le> spec_gradient_channel 102 77 sz y \<and> spec_gradient_channel 102 77 sz y \<le> 102"
    using assms by (intro interpolation_between) simp_all
  have green: "166 \<le> spec_gradient_channel 178 166 sz y \<and> spec_gradient_channel 178 166 sz y \<le> 178"
    using assms by (intro interpolation_between) simp_all
  have last: "spec_gradient_channel 102 77 sz (sz - 1) = 77 \<and>
              spec_gradient_channel 178 166 sz (sz - 1) = 166" if "26 \<le> sz"
    using that assms(3) by (simp add: interpolation_last_row)
  show ?thesis
    using red green last by (simp add: r0 bands) (simp add: f)
qed

theorem gradient_rows_witness:
  "(0::int) \<le> 31 \<and> (31::int) < 32 \<and> (32::int) < 2 ^ 31 \<and> (26::int) \<le> 32 \<and>
   gradient_fill 32 0 = RGB 102 178 255 \<and>
   band (gradient_fill 32 (32 - 1)) 0 = 77 \<and> band (gradient_fill 32 (32 - 1)) 1 = 166"
  using gradient_rows[of 31 32] by (auto simp add: bands sky_blue_light_def)

section \<open>Facts about the driver\<close>

lemma generate_icon_outcome:
  "generate_icon E p sz w = (case icon_outcome E p sz of
       Inl e \<Rightarrow> (w\<lparr>stdout := stdout w @ [Generating sz p]\<rparr>, Inl e)
     | Inr img \<Rightarrow> (w\<lparr>stdout := stdout w @ [Generating sz p],
                      writes := writes w @ [(p, img)]\<rparr>, Inr ()))"
  by (simp add: generate_icon_def icon_outcome_def save_def print_def Let_def
      split: sum.splits option.splits)

lemma generate_all_world:
  "generate_all E d es w =
     w\<lparr>stdout := stdout w @ concat (map (entry_messages E d) es),
       stderr := stderr w @ concat (map (entry_traces E d) es),
       writes := writes w @ concat (map (entry_writes E d) es)\<rparr>"
proof (induction es arbitrary: w)
  case Nil
  then show ?case by simp
next
  case (Cons entry es)
  obtain filename sz where entry: "entry = (filename, sz)" by (cases entry)
  show ?case
  proof (cases "icon_outcome E (path_join d filename) sz")
    case (Inl e)
    then show ?thesis
      by (simp add: entry generate_icon_outcome Cons.IH entry_messages_def entry_traces_def
          entry_writes_def print_def print_exc_def)
  next
    case (Inr img)
    then show ?thesis
      by (simp add: entry generate_icon_outcome Cons.IH entry_messages_def entry_traces_def
          entry_writes_def)
  qed
qed

lemma filter_entry_messages:
  "filter is_generating (concat (map (entry_messages E d) es)) =
     map (\<lambda>(filename, sz). Generating sz (path_join d filename)) es"
  by (induction es) (auto simp: entry_messages_def is_generating_def split: sum.splits)

lemma program_run:
  assumes "pil_available E" "dir_exists E (icon_dir E)"
  shows "program E w =
     (w\<lparr>stdout := stdout w @ [GeneratingAppIcons] @
            concat (map (entry_messages E (icon_dir E)) all_sizes) @
            [IconGenerationComplete, NextSteps, Step1, Step2, Step3],
        stderr := stderr w @ concat (map (entry_traces E (icon_dir E)) all_sizes),
        writes := writes w @ concat (map (entry_writes E (icon_dir E)) all_sizes)\<rparr>, 0)"
  using assms by (simp add: program_def main_def Let_def generate_all_world print_def)

lemma program_no_dir:
  assumes "pil_available E" "\<not> dir_exists E (icon_dir E)"
  shows "program E w = (w\<lparr>stdout := stdout w @ [IconDirectoryNotFound (icon_dir E)]\<rparr>, 1)"
  using assms by (simp add: program_def main_def print_def)

lemma program_no_pil:
  assumes "\<not> pil_available E"
  shows "program E w =
     (w\<lparr>stdout := stdout w @ [MissingDependencies, PleaseInstall, PipInstallPillow]\<rparr>, 1)"
  using assms by (simp add: program_def print_def)

lemma icon_outcome_ok:
  assumes "0 \<le> sz" "sz < 2 ^ 29 - 1" "save_error E p = None"
  shows "\<exists>img. icon_outcome E p sz = Inr img \<and> draw_urgood_icon (covers_of E) sz = Inr img \<and>
           im_size img = (sz, sz)"
  using draw_urgood_icon_returns[OF assms(1,2), of "covers_of E"] assms(3)
  by (auto simp: icon_outcome_def)

lemma icon_outcome_negative: "sz < 0 \<Longrightarrow> icon_outcome E p sz = Inl ValueError"
  by (simp add: icon_outcome_def draw_urgood_icon_negative)

lemma icon_outcome_save_error:
  assumes "0 \<le> sz" "sz < 2 ^ 29 - 1" "save_error E p = Some e"
  shows "icon_outcome E p sz = Inl e"
  using draw_urgood_icon_returns[OF assms(1,2), of "covers_of E"] assms(3)
  by (auto simp: icon_outcome_def)

lemma program_exit_code:
  "snd (program E w) = (if pil_available E \<and> dir_exists E (icon_dir E) then 0 else 1)"
  by (cases "pil_available E"; cases "dir_exists E (icon_dir E)")
     (simp_all add: program_run program_no_dir program_no_pil)

lemma entry_writes_saved:
  assumes "draw_urgood_icon (covers_of E) sz = Inr img" "save_error E (path_join d filename) = None"
  shows "entry_writes E d (filename, sz) = [(path_join d filename, img)]"
    and "entry_traces E d (filename, sz) = []"
  using assms by (simp_all add: entry_writes_def entry_traces_def icon_outcome_def)

lemma sample_env_simps:
  "pil_available sample_env" "dir_exists sample_env d" "save_error sample_env p = None"
  "covers_of sample_env = box_covers"
  "icon_dir sample_env = ''/repo/urgood/urgood/Assets.xcassets/AppIcon.appiconset''"
  by (simp_all add: sample_env_def icon_dir_def path_join_def)

lemma failing_env_simps:
  "pil_available failing_env" "dir_exists failing_env d" "covers_of failing_env = box_covers"
  "icon_dir failing_env = icon_dir sample_env"
  "save_error failing_env p =
     (if p = path_join (icon_dir sample_env) ''app_icon_32.png'' then Some OSError else None)"
  by (simp_all add: failing_env_def sample_env_def icon_dir_def)

section \<open>A failing file does not stop the batch\<close>

text \<open>
  Claim C4.  The loop of the driver, on any list of entries and from any state, prints for
  every entry of the list, in order, the line that announces it, so every entry is
  attempted; an entry whose rendering or saving raises gets, right after its line, one
  diagnostic that names its file, and one stack trace, and the entries that succeed get
  none.  When Pillow is available and the icon directory exists, the program runs the loop
  over the fixed list and exits with status 0, whatever failed in the loop.  The exit status
  is 1 exactly when Pillow is unavailable or the directory is missing, and 0 otherwise.
\<close>

theorem batch_resilience:
  "stdout (generate_all E d es w) = stdout w @ concat (map (entry_messages E d) es) \<and>
   stderr (generate_all E d es w) = stderr w @ concat (map (entry_traces E d) es) \<and>
   filter is_generating (concat (map (entry_messages E d) es)) =
     map (\<lambda>(filename, sz). Generating sz (path_join d filename)) es \<and>
   (pil_available E \<and> dir_exists E (icon_dir E) \<longrightarrow>
      snd (program E w) = 0 \<and>
      stdout (fst (program E w)) = stdout w @ [GeneratingAppIcons] @
        concat (map (entry_messages E (icon_dir E)) all_sizes) @
        [IconGenerationComplete, NextSteps, Step1, Step2, Step3] \<and>
      stderr (fst (program E w)) =
        stderr w @ concat (map (entry_traces E (icon_dir E)) all_sizes)) \<and>
   (snd (program E w) = 1 \<longleftrightarrow> \<not> pil_available E \<or> \<not> dir_exists E (icon_dir E)) \<and>
   (snd (program E w) = 0 \<or> snd (program E w) = 1)"
  using program_run[of E w]
  by (auto simp: program_exit_code generate_all_world filter_entry_messages)

theorem batch_resilience_witness:
  "pil_available failing_env \<and> dir_exists failing_env (icon_dir failing_env) \<and>
   snd (program failing_env empty_world) = 0 \<and>
   stdout (generate_all failing_env ''d'' [(''a.png'', - 1), (''app_icon_32.png'', 32), (''b.png'', 2)]
             empty_world) =
     [Generating (- 1) ''d/a.png'', FailedToGenerate ''a.png'' ValueError,
      Generating 32 ''d/app_icon_32.png'', Generating 2 ''d/b.png''] \<and>
   stdout (generate_all failing_env (icon_dir sample_env) [(''app_icon_32.png'', 32), (''b.png'', 2)]
             empty_world) =
     [Generating 32 (path_join (icon_dir sample_env) ''app_icon_32.png''),
      FailedToGenerate ''app_icon_32.png'' OSError,
      Generating 2 (path_join (icon_dir sample_env) ''b.png'')] \<and>
   stderr (generate_all failing_env (icon_dir sample_env) [(''app_icon_32.png'', 32), (''b.png'', 2)]
             empty_world) = [OSError]"
proof -
  have ok: "\<exists>img. icon_outcome failing_env p sz = Inr img"
    if "0 \<le> sz" "sz < 2 ^ 29 - 1" "p \<noteq> path_join (icon_dir sample_env) ''app_icon_32.png''" for p sz
    using icon_outcome_ok[of sz failing_env p] that by (auto simp: failing_env_simps)
  have bad: "icon_outcome failing_env (path_join (icon_dir sample_env) ''app_icon_32.png'') 32 = Inl OSError"
    by (rule icon_outcome_save_error) (simp_all add: failing_env_simps)
  have 1: "\<exists>img. icon_outcome failing_env ''d/app_icon_32.png'' 32 = Inr img"
    by (rule ok) (simp_all add: path_join_def icon_dir_def sample_env_def)
  have 2: "\<exists>img. icon_outcome failing_env ''d/b.png'' 2 = Inr img"
    by (rule ok) (simp_all add: path_join_def icon_dir_def sample_env_def)
  have 3: "\<exists>img. icon_outcome failing_env (path_join (icon_dir sample_env) ''b.png'') 2 = Inr img"
    by (rule ok) (simp_all add: path_join_def)
  from 1 2 3 bad show ?thesis
    using batch_resilience[of failing_env "''d''" "[(''a.png'', - 1), (''app_icon_32.png'', 32), (''b.png'', 2)]" empty_world]
      batch_resilience[of failing_env "icon_dir sample_env" "[(''app_icon_32.png'', 32), (''b.png'', 2)]" empty_world]
    by (auto simp: failing_env_simps entry_messages_def entry_traces_def icon_outcome_negative
        empty_world_def path_join_def)
qed

section \<open>A missing icon directory is fatal\<close>

text \<open>
  Claim C5.  If the icon directory, \<^verbatim>\<open>urgood/urgood/Assets.xcassets/AppIcon.appiconset\<close>
  under the directory of the script, does not exist, the program exits with status 1, it
  prints an error and nothing else (the one that names the directory, or the one about
  the missing library when Pillow cannot be imported either), it writes no file, and it
  announces no rendering: the loop is never entered.
\<close>

theorem missing_directory_is_fatal:
  assumes "\<not> dir_exists E (icon_dir E)"
  shows "snd (program E w) = 1 \<and>
         writes (fst (program E w)) = writes w \<and>
         stderr (fst (program E w)) = stderr w \<and>
         stdout (fst (program E w)) = stdout w @
           (if pil_available E then [IconDirectoryNotFound (icon_dir E)]
            else [MissingDependencies, PleaseInstall, PipInstallPillow]) \<and>
         filter is_generating (stdout (fst (program E w))) = filter is_generating (stdout w)"
  using assms program_no_dir[of E w] program_no_pil[of E w]
  by (cases "pil_available E") (simp_all add: is_generating_def)

theorem missing_directory_is_fatal_witness:
  "\<not> dir_exists no_dir_env (icon_dir no_dir_env) \<and>
   program no_dir_env empty_world =
     (\<lparr>stdout = [IconDirectoryNotFound ''/repo/urgood/urgood/Assets.xcassets/AppIcon.appiconset''],
       stderr = [], writes = []\<rparr>, 1)"
proof -
  have n: "\<not> dir_exists no_dir_env (icon_dir no_dir_env)" "pil_available no_dir_env"
    "icon_dir no_dir_env = ''/repo/urgood/urgood/Assets.xcassets/AppIcon.appiconset''"
    by (simp_all add: no_dir_env_def sample_env_def icon_dir_def path_join_def)
  show ?thesis
    using missing_directory_is_fatal[OF n(1), of empty_world] n
    by (cases "program no_dir_env empty_world") (simp add: empty_world_def)
qed

section \<open>The files of a full batch\<close>

text \<open>
  Claim C2.  When Pillow is available, the icon directory exists and no save fails, the
  program writes exactly eleven files, in the order of the fixed list, under eleven
  different names; the file \<open>app_icon_1024.png\<close> holds an image of size 1024, and so on as
  listed; each file holds the image the renderer returns for the size of its entry; no
  stack trace is printed and the exit status is 0.
\<close>

theorem full_batch_writes:
  assumes "pil_available E" "dir_exists E (icon_dir E)" "\<forall>p. save_error E p = None"
  shows "\<exists>new. writes (fst (program E w)) = writes w @ new \<and>
           map (\<lambda>(p, img). (p, im_size img)) new =
             [(path_join (icon_dir E) ''app_icon_1024.png'', (1024, 1024)),
              (path_join (icon_dir E) ''app_icon_16.png'', (16, 16)),
              (path_join (icon_dir E) ''app_icon_16@2x.png'', (32, 32)),
              (path_join (icon_dir E) ''app_icon_32.png'', (32, 32)),
              (path_join (icon_dir E) ''app_icon_32@2x.png'', (64, 64)),
              (path_join (icon_dir E) ''app_icon_128.png'', (128, 128)),
              (path_join (icon_dir E) ''app_icon_128@2x.png'', (256, 256)),
              (path_join (icon_dir E) ''app_icon_256.png'', (256, 256)),
              (path_join (icon_dir E) ''app_icon_256@2x.png'', (512, 512)),
              (path_join (icon_dir E) ''app_icon_512.png'', (512, 512)),
              (path_join (icon_dir E) ''app_icon_512@2x.png'', (1024, 1024))] \<and>
           list_all2 (\<lambda>(p, img) (filename, sz). draw_urgood_icon (covers_of E) sz = Inr img)
             new all_sizes \<and>
           length new = 11 \<and> distinct (map fst new) \<and>
           stderr (fst (program E w)) = stderr w \<and> snd (program E w) = 0"
proof -
  let ?d = "icon_dir E"
  obtain j1024 where j1024: "draw_urgood_icon (covers_of E) 1024 = Inr j1024" "im_size j1024 = (1024, 1024)"
    using draw_urgood_icon_returns[of 1024 "covers_of E"] by auto
  obtain j16 where j16: "draw_urgood_icon (covers_of E) 16 = Inr j16" "im_size j16 = (16, 16)"
    using draw_urgood_icon_returns[of 16 "covers_of E"] by auto
  obtain j32 where j32: "draw_urgood_icon (covers_of E) 32 = Inr j32" "im_size j32 = (32, 32)"
    using draw_urgood_icon_returns[of 32 "covers_of E"] by auto
  obtain j64 where j64: "draw_urgood_icon (covers_of E) 64 = Inr j64" "im_size j64 = (64, 64)"
    using draw_urgood_icon_returns[of 64 "covers_of E"] by auto
  obtain j128 where j128: "draw_urgood_icon (covers_of E) 128 = Inr j128" "im_size j128 = (128, 128)"
    using draw_urgood_icon_returns[of 128 "covers_of E"] by auto
  obtain j256 where j256: "draw_urgood_icon (covers_of E) 256 = Inr j256" "im_size j256 = (256, 256)"
    using draw_urgood_icon_returns[of 256 "covers_of E"] by auto
  obtain j512 where j512: "draw_urgood_icon (covers_of E) 512 = Inr j512" "im_size j512 = (512, 512)"
    using draw_urgood_icon_returns[of 512 "covers_of E"] by auto
  note js = j1024 j16 j32 j64 j128 j256 j512
  have s: "save_error E p = None" for p using assms(3) by simp
  let ?new = "concat (map (entry_writes E ?d) all_sizes)"
  have new: "?new =
     [(path_join ?d ''app_icon_1024.png'', j1024),
      (path_join ?d ''app_icon_16.png'', j16),
      (path_join ?d ''app_icon_16@2x.png'', j32),
      (path_join ?d ''app_icon_32.png'', j32),
      (path_join ?d ''app_icon_32@2x.png'', j64),
      (path_join ?d ''app_icon_128.png'', j128),
      (path_join ?d ''app_icon_128@2x.png'', j256),
      (path_join ?d ''app_icon_256.png'', j256),
      (path_join ?d ''app_icon_256@2x.png'', j512),
      (path_join ?d ''app_icon_512.png'', j512),
      (path_join ?d ''app_icon_512@2x.png'', j1024)]"
    by (simp add: all_sizes_def ios_sizes_def mac_sizes_def entry_writes_saved(1)[OF _ s] js)
  have tr: "concat (map (entry_traces E ?d) all_sizes) = []"
    by (simp add: all_sizes_def ios_sizes_def mac_sizes_def entry_writes_saved(2)[OF _ s] js)
  have run: "writes (fst (program E w)) = writes w @ ?new"
    "stderr (fst (program E w)) = stderr w" "snd (program E w) = 0"
    using program_run[OF assms(1,2), of w] tr by simp_all
  have dims: "map (\<lambda>(p, img). (p, im_size img)) ?new =
             [(path_join (icon_dir E) ''app_icon_1024.png'', (1024, 1024)),
              (path_join (icon_dir E) ''app_icon_16.png'', (16, 16)),
              (path_join (icon_dir E) ''app_icon_16@2x.png'', (32, 32)),
              (path_join (icon_dir E) ''app_icon_32.png'', (32, 32)),
              (path_join (icon_dir E) ''app_icon_32@2x.png'', (64, 64)),
              (path_join (icon_dir E) ''app_icon_128.png'', (128, 128)),
              (path_join (icon_dir E) ''app_icon_128@2x.png'', (256, 256)),
              (path_join (icon_dir E) ''app_icon_256.png'', (256, 256)),
              (path_join (icon_dir E) ''app_icon_256@2x.png'', (512, 512)),
              (path_join (icon_dir E) ''app_icon_512.png'', (512, 512)),
              (path_join (icon_dir E) ''app_icon_512@2x.png'', (1024, 1024))]"
    unfolding new by (simp add: js)
  have rel: "list_all2 (\<lambda>(p, img) (filename, sz). draw_urgood_icon (covers_of E) sz = Inr img)
             ?new all_sizes"
    unfolding new by (simp add: all_sizes_def ios_sizes_def mac_sizes_def js)
  have len: "length ?new = 11" unfolding new by simp
  have dist: "distinct (map fst ?new)" unfolding new by (simp add: path_join_def)
  show ?thesis
    by (rule exI[of _ ?new]) (simp only: run dims rel len dist simp_thms)
qed

theorem full_batch_writes_witness:
  "pil_available sample_env \<and> dir_exists sample_env (icon_dir sample_env) \<and>
   (\<forall>p. save_error sample_env p = None) \<and>
   (\<exists>new. writes (fst (program sample_env empty_world)) = writes empty_world @ new \<and>
      length new = 11 \<and> distinct (map fst new)) \<and>
   snd (program sample_env empty_world) = 0"
proof -
  have h: "pil_available sample_env" "dir_exists sample_env (icon_dir sample_env)"
    "\<forall>p. save_error sample_env p = None"
    by (simp_all add: sample_env_simps)
  have "(\<exists>new. writes (fst (program sample_env empty_world)) = writes empty_world @ new \<and>
      length new = 11 \<and> distinct (map fst new)) \<and> snd (program sample_env empty_world) = 0"
    using full_batch_writes[OF h, of empty_world]
    apply (elim exE conjE)
    apply (rule conjI)
     apply (rule_tac x = new in exI)
     apply (intro conjI)
       apply assumption+
    done
  with h show ?thesis by (simp only: simp_thms)
qed

section \<open>Facts about the renderer on a store\<close>

lemma store_draw_all_eq:
  assumes "r < length s"
  shows "store_draw_all covers r cs s = (case draw_all covers (s ! r) cs of
           Inl e \<Rightarrow> Inl e
         | Inr img \<Rightarrow> Inr (s[r := img]))"
  using assms
proof (induction cs arbitrary: s)
  case Nil
  then show ?case by simp
next
  case (Cons c cs)
  obtain sh fill where c: "c = (sh, fill)" by (cases c)
  show ?case
  proof (cases "draw_shape covers (s ! r) sh fill")
    case (Inl e)
    then show ?thesis by (simp add: c store_draw_def)
  next
    case (Inr img)
    have "r < length (s[r := img])" using Cons.prems by simp
    from Cons.IH[OF this] Inr Cons.prems show ?thesis
      by (simp add: c store_draw_def split: sum.splits)
  qed
qed

lemma draw_urgood_icon_store_eq:
  "draw_urgood_icon_store covers sz s =
     (case new_image ModeRGBA (sz, sz) (RGBA 0 0 0 0) of
        Inl e \<Rightarrow> Inl e
      | Inr img0 \<Rightarrow>
     (case draw_all covers img0 (layer_calls sz) of
        Inl e \<Rightarrow> Inl e
      | Inr img \<Rightarrow>
     (case new_image ModeRGB (sz, sz) (RGB 0 0 0) of
        Inl e \<Rightarrow> Inl e
      | Inr final0 \<Rightarrow>
     (case draw_all covers final0 (gradient_calls sz) of
        Inl e \<Rightarrow> Inl e
      | Inr final_img \<Rightarrow> Inr (Suc (length s), s @ [img, paste final_img img img])))))"
  by (simp add: draw_urgood_icon_store_def store_new_def store_draw_all_eq store_paste_def
      nth_append list_update_append split: sum.splits)

lemma returned_store:
  "returned (draw_urgood_icon_store covers sz s) = draw_urgood_icon covers sz"
  by (simp add: draw_urgood_icon_store_eq draw_urgood_icon_def returned_def nth_append
      split: sum.splits)

section \<open>The renderer depends on the size only\<close>

text \<open>
  Claim C8.  The script draws with no source of randomness; the state a call of
  \<^verbatim>\<open>draw_urgood_icon\<close> could depend on is the image objects that exist when it is called.
  It does not: from any two stores, two calls with the same size raise the same error or
  return pixel-identical images, and what a call returns is the value of the renderer on
  values, which has the size as its only argument besides the library.  A call leaves
  every existing object as it was and adds two, the layer and the image it returns; a
  second call with the same size, made on the store the first one left, returns an image
  equal to the one the first call returned.
\<close>

theorem renderer_deterministic:
  "returned (draw_urgood_icon_store covers sz s) = returned (draw_urgood_icon_store covers sz s') \<and>
   returned (draw_urgood_icon_store covers sz s) = draw_urgood_icon covers sz \<and>
   (\<forall>r t. draw_urgood_icon_store covers sz s = Inr (r, t) \<longrightarrow>
      take (length s) t = s \<and> length t = length s + 2 \<and> r = length s + 1 \<and>
      returned (draw_urgood_icon_store covers sz t) = Inr (t ! r))"
proof -
  have "take (length s) t = s \<and> length t = length s + 2 \<and> r = length s + 1 \<and>
      returned (draw_urgood_icon_store covers sz t) = Inr (t ! r)"
    if run: "draw_urgood_icon_store covers sz s = Inr (r, t)" for r t
  proof -
    have "returned (draw_urgood_icon_store covers sz s) = Inr (t ! r)"
      by (simp add: run returned_def)
    then have "returned (draw_urgood_icon_store covers sz t) = Inr (t ! r)"
      by (simp add: returned_store)
    moreover have "take (length s) t = s \<and> length t = length s + 2 \<and> r = length s + 1"
      using run by (auto simp: draw_urgood_icon_store_eq split: sum.splits)
    ultimately show ?thesis by simp
  qed
  then show ?thesis by (simp add: returned_store)
qed

theorem renderer_deterministic_witness:
  "returned (draw_urgood_icon_store box_covers 16 []) =
     returned (draw_urgood_icon_store box_covers 16 [blank_image]) \<and>
   (\<exists>img. returned (draw_urgood_icon_store box_covers 16 [blank_image]) = Inr img \<and>
      im_size img = (16, 16))"
  using renderer_deterministic[of box_covers 16 "[]" "[blank_image]"]
    renderer_deterministic[of box_covers 16 "[blank_image]" "[]"]
    draw_urgood_icon_rows[of 16 box_covers]
  by auto

end
